theory Spec2Isabelle
  imports Complex_Main "HOL-Library.AList"
begin

section \<open>Time and the interval clock\<close>

text \<open>
  A Python \<^verbatim>\<open>datetime\<close> is modelled by the (exact, integer) number of microseconds
  between it and \<^verbatim>\<open>CLUSTER_EPOCH_2024\<close>; it is negative for an instant before the
  epoch. Python floats are modelled by the reals, Python ints by \<^typ>\<open>int\<close>.
\<close>

type_synonym datetime = int

definition CLUSTERED_SUBMISSIONS_INTERVAL_MINUTES :: int where
  "CLUSTERED_SUBMISSIONS_INTERVAL_MINUTES = 60 * 4"

text \<open>\<^verbatim>\<open>int((d - CLUSTER_EPOCH_2024).total_seconds())\<close>: \<^verbatim>\<open>int\<close> truncates towards zero.\<close>

definition int_total_seconds :: "datetime \<Rightarrow> int" where
  "int_total_seconds d = (if 0 \<le> d then d div 1000000 else - ((- d) div 1000000))"

text \<open>\<^verbatim>\<open>int((d - CLUSTER_EPOCH_2024).total_seconds()) // 60\<close>: \<^verbatim>\<open>//\<close> rounds down.\<close>

definition minutes_since_epoch :: "datetime \<Rightarrow> int" where
  "minutes_since_epoch d = int_total_seconds d div 60"

text \<open>
  \<^verbatim>\<open>minutes_since_epoch - (minutes_since_epoch % CLUSTERED_SUBMISSIONS_INTERVAL_MINUTES)\<close>,
  as written in \<^verbatim>\<open>QueryMiners.get_interval_start_minutes\<close>, \<^verbatim>\<open>Validator.forward\<close> and three
  times in \<^verbatim>\<open>Validator.on_event_update\<close>. Python's \<^verbatim>\<open>%\<close> with a positive divisor is
  HOL's \<open>mod\<close> on \<^typ>\<open>int\<close>.
\<close>

definition interval_start_minutes_of :: "int \<Rightarrow> int" where
  "interval_start_minutes_of m = m - (m mod CLUSTERED_SUBMISSIONS_INTERVAL_MINUTES)"

text \<open>\<^verbatim>\<open>QueryMiners.get_interval_start_minutes\<close>, with the clock reading as an argument.\<close>

definition get_interval_start_minutes :: "datetime \<Rightarrow> int" where
  "get_interval_start_minutes now = interval_start_minutes_of (minutes_since_epoch now)"

text \<open>The spec's wording of the same function: \<open>floor (t / width) * width\<close>.\<close>

definition spec_intervalStart :: "int \<Rightarrow> int" where
  "spec_intervalStart t = \<lfloor>real_of_int t / 240\<rfloor> * 240"

text \<open>\<^verbatim>\<open>CLUSTER_EPOCH_2024 + timedelta(minutes=m)\<close>.\<close>

definition epoch_plus_minutes :: "int \<Rightarrow> datetime" where
  "epoch_plus_minutes m = m * 60 * 1000000"

text \<open>\<^verbatim>\<open>range(start, stop, step)\<close> for a positive step, as the list it iterates over.\<close>

function py_range :: "int \<Rightarrow> int \<Rightarrow> int \<Rightarrow> int list" where
  "py_range i stop step = (if 0 < step \<and> i < stop then i # py_range (i + step) stop step else [])"
  by pat_completeness auto
termination
  by (relation "measure (\<lambda>(i, stop, step). nat (stop - i))") auto

declare py_range.simps [simp del]

section \<open>The scoring window of a settled event\<close>

text \<open>
  The window computed at the head of the \<^verbatim>\<open>SETTLED\<close> branch of
  \<^verbatim>\<open>Validator.on_event_update\<close> from the event's registration date, the cutoff
  (\<^verbatim>\<open>integration.latest_submit_date(pe)\<close>) and the clock reading \<^verbatim>\<open>now\<close>.
\<close>

definition cutoff_interval_start_minutes :: "datetime \<Rightarrow> int" where
  "cutoff_interval_start_minutes cutoff = interval_start_minutes_of (minutes_since_epoch cutoff)"

definition now_interval_start_minutes :: "datetime \<Rightarrow> int" where
  "now_interval_start_minutes now = interval_start_minutes_of (minutes_since_epoch now)"

definition effective_finish_start_minutes :: "datetime \<Rightarrow> datetime \<Rightarrow> int" where
  "effective_finish_start_minutes cutoff now =
     min (cutoff_interval_start_minutes cutoff) (now_interval_start_minutes now)"

definition start_interval_start_minutes :: "datetime \<Rightarrow> int" where
  "start_interval_start_minutes registered_date =
     interval_start_minutes_of (minutes_since_epoch registered_date)"

definition total_intervals :: "datetime \<Rightarrow> datetime \<Rightarrow> datetime \<Rightarrow> int" where
  "total_intervals registered_date cutoff now =
     (effective_finish_start_minutes cutoff now - start_interval_start_minutes registered_date)
       div CLUSTERED_SUBMISSIONS_INTERVAL_MINUTES"

text \<open>The intervals the general branch iterates over.\<close>

definition scoring_window :: "datetime \<Rightarrow> datetime \<Rightarrow> datetime \<Rightarrow> int list" where
  "scoring_window registered_date cutoff now =
     py_range (start_interval_start_minutes registered_date)
       (effective_finish_start_minutes cutoff now) CLUSTERED_SUBMISSIONS_INTERVAL_MINUTES"

section \<open>The scoring engine\<close>

text \<open>Exceptions that the modelled code could raise.\<close>

datatype py_error = ZeroDivisionError | ValueError | IndexError | AttributeError

text \<open>
  The value of \<^verbatim>\<open>predictions.get(uid)\<close>: a dictionary from an interval's start (minutes
  since the epoch) to the entry's \<^verbatim>\<open>interval_agg_prediction\<close>, which may be \<^verbatim>\<open>None\<close>.
  The dictionary is an association list, read with \<^const>\<open>map_of\<close>.
\<close>

type_synonym prediction_intervals = "(int \<times> real option) list"

text \<open>\<^verbatim>\<open>not prediction_intervals\<close>: \<^verbatim>\<open>None\<close> or the empty dictionary.\<close>

definition not_intervals :: "prediction_intervals option \<Rightarrow> bool" where
  "not_intervals p = (case p of None \<Rightarrow> True | Some d \<Rightarrow> d = [])"

text \<open>\<^verbatim>\<open>(prediction_intervals or {})\<close>.\<close>

definition intervals_or_empty :: "prediction_intervals option \<Rightarrow> prediction_intervals" where
  "intervals_or_empty p = (case p of None \<Rightarrow> [] | Some d \<Rightarrow> d)"

text \<open>\<^verbatim>\<open>d[k]["interval_agg_prediction"]\<close> for a key that is present.\<close>

definition agg_prediction :: "prediction_intervals \<Rightarrow> int \<Rightarrow> real option" where
  "agg_prediction d k = (case map_of d k of None \<Rightarrow> None | Some v \<Rightarrow> v)"

text \<open>\<^verbatim>\<open>max(0, min(1, ans))\<close> and \<^verbatim>\<open>1 - ((ans - correct_ans) ** 2)\<close>.\<close>

definition clamp_answer :: "real \<Rightarrow> real" where
  "clamp_answer ans = max 0 (min 1 ans)"

definition brier_score :: "real \<Rightarrow> real \<Rightarrow> real" where
  "brier_score ans correct_ans = 1 - ((ans - correct_ans) ^ 2)"

definition first_n_intervals :: int where
  "first_n_intervals = 1"

subsection \<open>The branch of market type azuro\<close>

text \<open>
  The answer the branch selects for a miner that registered before the cutoff and has a
  non-empty dictionary: the entry under key \<open>0\<close> when there is one, else the entry under
  the greatest key. \<^verbatim>\<open>max\<close> of no keys would raise \<^verbatim>\<open>ValueError\<close>.
\<close>

definition azuro_answer :: "prediction_intervals \<Rightarrow> py_error + real option" where
  "azuro_answer d =
     (if 0 \<in> set (map fst d) then Inr (agg_prediction d 0)
      else if d = [] then Inl ValueError
      else Inr (agg_prediction d (Max (set (map fst d)))))"

text \<open>The tail of the branch: a \<^verbatim>\<open>None\<close> answer scores 0, any other one its clamped accuracy.\<close>

definition settle_answer :: "real option \<Rightarrow> real \<Rightarrow> real" where
  "settle_answer ans correct_ans =
     (case ans of None \<Rightarrow> 0 | Some a \<Rightarrow> brier_score (clamp_answer a) correct_ans)"

definition azuro_score ::
  "datetime \<Rightarrow> datetime \<Rightarrow> prediction_intervals option \<Rightarrow> real \<Rightarrow> py_error + real" where
  "azuro_score miner_reg_time cutoff prediction_intervals correct_ans =
     (if miner_reg_time \<ge> cutoff then Inr (settle_answer (Some (1 / 2)) correct_ans)
      else if miner_reg_time < cutoff \<and> not_intervals prediction_intervals then Inr 0
      else (case azuro_answer (intervals_or_empty prediction_intervals) of
              Inl e \<Rightarrow> Inl e
            | Inr ans \<Rightarrow> Inr (settle_answer ans correct_ans)))"

subsection \<open>The general branch\<close>

text \<open>
  The answer of one interval: the recorded one, \<^verbatim>\<open>None\<close> when there is none, and
  \<open>1/2\<close> whatever is recorded when the miner registered after the interval's end.
\<close>

definition interval_answer :: "datetime \<Rightarrow> prediction_intervals option \<Rightarrow> int \<Rightarrow> real option" where
  "interval_answer miner_reg_time prediction_intervals interval_start_minutes =
     (let ans = agg_prediction (intervals_or_empty prediction_intervals) interval_start_minutes;
          interval_end_date =
            epoch_plus_minutes (interval_start_minutes + CLUSTERED_SUBMISSIONS_INTERVAL_MINUTES)
      in if miner_reg_time > interval_end_date then Some (1 / 2) else ans)"

text \<open>The weight \<^verbatim>\<open>wk\<close>; the division is Python's true division of two ints.\<close>

definition interval_weight :: "int \<Rightarrow> int \<Rightarrow> py_error + real" where
  "interval_weight total_n current_interval_no =
     (if current_interval_no + 1 \<le> first_n_intervals then Inr 1
      else if total_n - current_interval_no = 0 then Inl ZeroDivisionError
      else Inr (exp (- (real_of_int total_n / real_of_int (total_n - current_interval_no)) + 1)))"

text \<open>What one interval appends to \<^verbatim>\<open>mk\<close>.\<close>

definition interval_contribution :: "real \<Rightarrow> real option \<Rightarrow> real \<Rightarrow> real" where
  "interval_contribution wk ans correct_ans =
     (case ans of None \<Rightarrow> 0 | Some a \<Rightarrow> wk * brier_score (clamp_answer a) correct_ans)"

text \<open>
  The loop over the intervals of the window, on the pair \<^verbatim>\<open>(mk, weights_sum)\<close>. The weight
  is added to \<^verbatim>\<open>weights_sum\<close> before the answer is looked at.
\<close>

fun intervals_loop ::
  "datetime \<Rightarrow> prediction_intervals option \<Rightarrow> int \<Rightarrow> int \<Rightarrow> real \<Rightarrow> int list
     \<Rightarrow> real list \<times> real \<Rightarrow> py_error + (real list \<times> real)" where
  "intervals_loop miner_reg_time prediction_intervals start total_n correct_ans [] acc = Inr acc"
| "intervals_loop miner_reg_time prediction_intervals start total_n correct_ans (i # rest) (mk, weights_sum) =
     (let ans = interval_answer miner_reg_time prediction_intervals i;
          current_interval_no = (i - start) div CLUSTERED_SUBMISSIONS_INTERVAL_MINUTES
      in case interval_weight total_n current_interval_no of
           Inl e \<Rightarrow> Inl e
         | Inr wk \<Rightarrow>
             intervals_loop miner_reg_time prediction_intervals start total_n correct_ans rest
               (mk @ [interval_contribution wk ans correct_ans], weights_sum + wk))"

definition general_score ::
  "datetime \<Rightarrow> datetime \<Rightarrow> prediction_intervals option \<Rightarrow> datetime \<Rightarrow> datetime \<Rightarrow> real
     \<Rightarrow> py_error + real" where
  "general_score miner_reg_time registered_date prediction_intervals cutoff now correct_ans =
     (if miner_reg_time < registered_date \<and> not_intervals prediction_intervals then Inr 0
      else
        (case intervals_loop miner_reg_time prediction_intervals
                (start_interval_start_minutes registered_date)
                (total_intervals registered_date cutoff now) correct_ans
                (scoring_window registered_date cutoff now) ([], 0) of
           Inl e \<Rightarrow> Inl e
         | Inr (mk, weights_sum) \<Rightarrow>
             Inr (if weights_sum > 0 then sum_list mk / weights_sum else 0)))"

subsection \<open>The settlement hook\<close>

text \<open>
  Modelled from the spec: the enumeration \<^verbatim>\<open>EventStatus\<close> is imported from
  \<^verbatim>\<open>infinite_games.events.base\<close>, which is not among the sources; the spec names the states
  open, settled and discarded.
\<close>

datatype event_status = PENDING | SETTLED | DISCARDED

record provider_event =
  event_id :: string
  status :: event_status
  answer :: "real option"
  registered_date :: datetime
  market_type :: string
  metadata :: "(string \<times> string) list"

text \<open>What the hook reads from its collaborators while it runs.\<close>

record scoring_context =
  metagraph_n :: nat
  event_predictions :: "(nat \<times> prediction_intervals) list"
  latest_submit_date :: datetime
  clock_now :: datetime
  miner_registered_date :: "nat \<Rightarrow> datetime"

text \<open>A miner table in which every miner has the same registration date.\<close>

definition all_registered_at :: "datetime \<Rightarrow> nat \<Rightarrow> datetime" where
  "all_registered_at d uid = d"

text \<open>\<^verbatim>\<open>pe.metadata.get("market_type", pe.market_type)\<close>.\<close>

definition event_market_type :: "provider_event \<Rightarrow> string" where
  "event_market_type pe =
     (case map_of (metadata pe) ''market_type'' of None \<Rightarrow> market_type pe | Some m \<Rightarrow> m)"

text \<open>The body of the loop over the uids: the score appended for one miner.\<close>

definition miner_score :: "scoring_context \<Rightarrow> provider_event \<Rightarrow> real \<Rightarrow> nat \<Rightarrow> py_error + real" where
  "miner_score ctx pe correct_ans uid =
     (let miner_reg_time = miner_registered_date ctx uid;
          prediction_intervals = map_of (event_predictions ctx) uid
      in if event_market_type pe = ''azuro''
         then azuro_score miner_reg_time (latest_submit_date ctx) prediction_intervals correct_ans
         else general_score miner_reg_time (registered_date pe) prediction_intervals
                (latest_submit_date ctx) (clock_now ctx) correct_ans)"

fun scores_loop ::
  "scoring_context \<Rightarrow> provider_event \<Rightarrow> real \<Rightarrow> nat list \<Rightarrow> py_error + real list" where
  "scores_loop ctx pe correct_ans [] = Inr []"
| "scores_loop ctx pe correct_ans (uid # uids) =
     (case miner_score ctx pe correct_ans uid of
        Inl e \<Rightarrow> Inl e
      | Inr s \<Rightarrow>
          (case scores_loop ctx pe correct_ans uids of
             Inl e \<Rightarrow> Inl e
           | Inr ss \<Rightarrow> Inr (s # ss)))"

text \<open>\<^verbatim>\<open>miner_uids\<close>: \<^verbatim>\<open>range(self.metagraph.n.item())\<close>.\<close>

definition miner_uids :: "scoring_context \<Rightarrow> nat list" where
  "miner_uids ctx = [0..<metagraph_n ctx]"

text \<open>
  The sharpening: skipped when no score is positive, else every non-zero entry \<open>s\<close> becomes
  \<^verbatim>\<open>alpha * s + beta * exp(30 * s)\<close> with \<^verbatim>\<open>alpha = 0\<close> and \<^verbatim>\<open>beta = 1\<close>.
\<close>

definition sharpen :: "real list \<Rightarrow> real list" where
  "sharpen scores =
     (if list_all (\<lambda>score. score \<le> 0) scores then scores
      else map (\<lambda>s. if s \<noteq> 0 then 0 * s + 1 * exp (30 * s) else s) scores)"

text \<open>
  \<^verbatim>\<open>torch.nn.functional.normalize(scores, p=1, dim=0)\<close>: every entry is divided by the
  greater of the vector's L1 norm and \<^verbatim>\<open>eps = 1e-12\<close>.
\<close>

definition l1_normalize :: "real list \<Rightarrow> real list" where
  "l1_normalize v = map (\<lambda>x. x / max (sum_list (map abs v)) (1 / 10 ^ 12)) v"

text \<open>
  \<^verbatim>\<open>torch.FloatTensor(scores)\<close> stores every score in single precision: the score is
  rounded to the nearest single-precision number, a tie going to the even one. Below
  \<open>2 ^ -126\<close> these numbers are the multiples of \<open>2 ^ -149\<close>; from there on, between \<open>2 ^ e\<close>
  and \<open>2 ^ (e + 1)\<close>, they are the multiples of \<open>2 ^ (e - 23)\<close>. A score beyond the range of
  single precision would become infinite; that case, and the rounding of the arithmetic
  done after the conversion, are left out.
\<close>

definition round_half_even :: "real \<Rightarrow> int" where
  "round_half_even r =
     (let f = \<lfloor>r\<rfloor> in
      if r - real_of_int f < 1 / 2 then f
      else if r - real_of_int f > 1 / 2 then f + 1
      else if even f then f else f + 1)"

definition to_float32 :: "real \<Rightarrow> real" where
  "to_float32 x =
     (if \<bar>x\<bar> < 1 / 2 ^ 126
      then real_of_int (round_half_even (x * 2 ^ 149)) / 2 ^ 149
      else (let q = 2 powr (real_of_int \<lfloor>log 2 \<bar>x\<bar>\<rfloor> - 23)
            in real_of_int (round_half_even (x / q)) * q))"

text \<open>
  The scores handed on: \<^verbatim>\<open>scores = torch.FloatTensor(scores)\<close>, then the sharpening and
  the normalisation.
\<close>

definition normalized_scores :: "real list \<Rightarrow> real list" where
  "normalized_scores brier_scores = l1_normalize (sharpen (map to_float32 brier_scores))"

text \<open>What the hook does to its collaborators.\<close>

datatype effect =
    UpdateScores "real list" "nat list"
  | ExportScores "(nat \<times> real \<times> real) list"
  | RemoveEvent string

text \<open>
  \<^verbatim>\<open>Validator.on_event_update\<close>: the value returned and the calls made, or the exception
  that escapes.
\<close>

definition on_event_update ::
  "scoring_context \<Rightarrow> provider_event \<Rightarrow> py_error + (bool \<times> effect list)" where
  "on_event_update ctx pe =
     (if status pe = SETTLED then
        (case answer pe of
           None \<Rightarrow> Inr (True, [])
         | Some correct_ans \<Rightarrow>
             if event_predictions ctx = [] then Inr (True, [])
             else
               (case scores_loop ctx pe correct_ans (miner_uids ctx) of
                  Inl e \<Rightarrow> Inl e
                | Inr brier_scores \<Rightarrow>
                    (let scores = normalized_scores brier_scores
                     in Inr (True,
                          [UpdateScores scores (miner_uids ctx),
                           ExportScores (zip (miner_uids ctx) (zip brier_scores scores))]))))
      else if status pe = DISCARDED then Inr (False, [RemoveEvent (event_id pe)])
      else Inr (False, []))"

section \<open>The dispatcher\<close>

text \<open>
  The task \<^verbatim>\<open>QueryMiners\<close>. Dictionaries are association lists in insertion order, written
  with \<^const>\<open>AList.update\<close> (an existing key keeps its place, a new key goes last) and
  iterated in list order. Record fields carry a prefix where the source's name is also the
  name of a variable of the scoring code.
\<close>

record axon_info =
  hotkey :: string
  is_serving :: bool

record metagraph =
  mg_uids :: "nat list"
  mg_axons :: "axon_info option list"
  mg_block :: int

text \<open>\<^verbatim>\<open>self.metagraph.axons[uid]\<close>; the entry may be \<^verbatim>\<open>None\<close>.\<close>

definition axon_at :: "metagraph \<Rightarrow> nat \<Rightarrow> py_error + axon_info option" where
  "axon_at mg uid =
     (if uid < length (mg_axons mg) then Inr (mg_axons mg ! uid) else Inl IndexError)"

fun get_axons_loop ::
  "metagraph \<Rightarrow> nat list \<Rightarrow> (nat \<times> axon_info) list \<Rightarrow> py_error + (nat \<times> axon_info) list" where
  "get_axons_loop mg [] axons = Inr axons"
| "get_axons_loop mg (uid # rest) axons =
     (case axon_at mg uid of
        Inl e \<Rightarrow> Inl e
      | Inr None \<Rightarrow> get_axons_loop mg rest axons
      | Inr (Some axon) \<Rightarrow>
          if is_serving axon then get_axons_loop mg rest (AList.update uid axon axons)
          else get_axons_loop mg rest axons)"

definition get_axons :: "metagraph \<Rightarrow> py_error + (nat \<times> axon_info) list" where
  "get_axons mg = get_axons_loop mg (mg_uids mg) []"

text \<open>One entry of the synapse's \<^verbatim>\<open>events\<close> dictionary.\<close>

record synapse_event =
  se_event_id :: string
  se_market_type :: string
  se_probability :: "real option"
  se_miner_answered :: bool
  se_description :: string
  se_cutoff :: "int option"
  se_starts :: "int option"
  se_resolve_date :: "int option"
  se_end_date :: "int option"

type_synonym synapse = "(string \<times> synapse_event) list"

text \<open>A row of \<^verbatim>\<open>get_events_to_predict\<close>: \<^verbatim>\<open>event[0]\<close> to \<^verbatim>\<open>event[6]\<close>.\<close>

record event_row =
  row_event_id :: string
  row_market_type :: string
  row_description :: string
  row_cutoff :: "string option"
  row_resolve_date :: "string option"
  row_end_date :: "string option"
  row_metadata :: string

text \<open>
  The library parsers the task calls, as parameters: \<open>iso_timestamp s\<close> is
  \<^verbatim>\<open>int(datetime.fromisoformat(s).timestamp())\<close> and \<open>json_loads s\<close> is \<^verbatim>\<open>json.loads(s)\<close>, each
  \<open>None\<close> where the library raises.
\<close>

record parsers =
  iso_timestamp :: "string \<Rightarrow> int option"
  json_loads :: "string \<Rightarrow> (string \<times> string) list option"

text \<open>\<^verbatim>\<open>int(datetime.fromisoformat(x).timestamp()) if x else None\<close>.\<close>

definition parse_date :: "parsers \<Rightarrow> string option \<Rightarrow> py_error + int option" where
  "parse_date ps raw =
     (case raw of
        None \<Rightarrow> Inr None
      | Some x \<Rightarrow>
          if x = [] then Inr None
          else (case iso_timestamp ps x of None \<Rightarrow> Inl ValueError | Some t \<Rightarrow> Inr (Some t)))"

text \<open>\<^verbatim>\<open>str.lower\<close> on ASCII letters.\<close>

definition lower_char :: "char \<Rightarrow> char" where
  "lower_char c =
     (let n = (of_char c :: nat) in if 65 \<le> n \<and> n \<le> 90 then char_of (n + 32) else c)"

definition str_lower :: "string \<Rightarrow> string" where
  "str_lower x = map lower_char x"

text \<open>The body of the loop of \<^verbatim>\<open>make_predictions_synapse\<close>: the key and the entry of one row.\<close>

definition compile_event :: "parsers \<Rightarrow> event_row \<Rightarrow> py_error + (string \<times> synapse_event)" where
  "compile_event ps event =
     (case parse_date ps (row_cutoff event) of
        Inl e \<Rightarrow> Inl e
      | Inr cutoff_ts \<Rightarrow>
     (case parse_date ps (row_resolve_date event) of
        Inl e \<Rightarrow> Inl e
      | Inr resolve_ts \<Rightarrow>
     (case parse_date ps (row_end_date event) of
        Inl e \<Rightarrow> Inl e
      | Inr end_ts \<Rightarrow>
     (case json_loads ps (row_metadata event) of
        None \<Rightarrow> Inl ValueError
      | Some md \<Rightarrow>
          (let mt = str_lower (case map_of md ''market_type'' of
                                 None \<Rightarrow> row_market_type event | Some m \<Rightarrow> m)
           in Inr (mt @ ''-'' @ row_event_id event,
                \<lparr>se_event_id = row_event_id event,
                 se_market_type = mt,
                 se_probability = None,
                 se_miner_answered = False,
                 se_description = row_description event,
                 se_cutoff = cutoff_ts,
                 se_starts = (case cutoff_ts of
                                None \<Rightarrow> None
                              | Some c \<Rightarrow> if c \<noteq> 0 \<and> mt = ''azuro'' then Some c else None),
                 se_resolve_date = resolve_ts,
                 se_end_date = end_ts\<rparr>))))))"

fun compile_events :: "parsers \<Rightarrow> event_row list \<Rightarrow> synapse \<Rightarrow> py_error + synapse" where
  "compile_events ps [] compiled_events = Inr compiled_events"
| "compile_events ps (event # rest) compiled_events =
     (case compile_event ps event of
        Inl e \<Rightarrow> Inl e
      | Inr (k, v) \<Rightarrow> compile_events ps rest (AList.update k v compiled_events))"

definition make_predictions_synapse :: "parsers \<Rightarrow> event_row list \<Rightarrow> py_error + synapse" where
  "make_predictions_synapse ps events = compile_events ps events []"

text \<open>
  The tuple built for one entry of a reply: \<^verbatim>\<open>(unique_event_id, axon_hotkey, uid, answer,
  interval_start_minutes, answer, block, answer)\<close>.
\<close>

type_synonym prediction =
  "string \<times> string \<times> nat \<times> real option \<times> int \<times> real option \<times> int \<times> real option"

definition prediction_of ::
  "string \<Rightarrow> int \<Rightarrow> int \<Rightarrow> nat \<Rightarrow> string \<times> synapse_event \<Rightarrow> prediction" where
  "prediction_of axon_hotkey block interval_start_minutes uid entry =
     (let unique_event_id = fst entry; answer = se_probability (snd entry)
      in (unique_event_id, axon_hotkey, uid, answer, interval_start_minutes, answer, block,
          answer))"

definition parse_neuron_predictions ::
  "metagraph \<Rightarrow> int \<Rightarrow> int \<Rightarrow> nat \<Rightarrow> synapse \<Rightarrow> py_error + prediction list" where
  "parse_neuron_predictions mg block interval_start_minutes uid neuron_predictions =
     (case axon_at mg uid of
        Inl e \<Rightarrow> Inl e
      | Inr None \<Rightarrow> Inl AttributeError
      | Inr (Some axon) \<Rightarrow>
          Inr (map (prediction_of (hotkey axon) block interval_start_minutes uid)
                 neuron_predictions))"

text \<open>
  \<^verbatim>\<open>store_predictions\<close>: the batches handed to \<^verbatim>\<open>upsert_predictions\<close>, in order, and the
  exception that ended the loop, if any.
\<close>

fun store_predictions ::
  "metagraph \<Rightarrow> int \<Rightarrow> int \<Rightarrow> (nat \<times> synapse) list
     \<Rightarrow> prediction list list \<times> (py_error + unit)" where
  "store_predictions mg block interval_start_minutes [] = ([], Inr ())"
| "store_predictions mg block interval_start_minutes ((uid, neuron_predictions) # rest) =
     (case parse_neuron_predictions mg block interval_start_minutes uid neuron_predictions of
        Inl e \<Rightarrow> ([], Inl e)
      | Inr batch \<Rightarrow>
          (case store_predictions mg block interval_start_minutes rest of
             (batches, r) \<Rightarrow> (batch # batches, r)))"

text \<open>A dictionary filled by assigning the items in order.\<close>

definition dict_of_items :: "('k \<times> 'v) list \<Rightarrow> ('k \<times> 'v) list" where
  "dict_of_items items = fold (\<lambda>(k, v) d. AList.update k v d) items []"

text \<open>What the task reads from, and the calls it makes on, its collaborators.\<close>

record query_miners_env =
  events_to_predict :: "event_row list"
  env_parsers :: parsers
  synced_metagraph :: metagraph
  dendrite_forward :: "axon_info list \<Rightarrow> synapse \<Rightarrow> synapse list"
  time_now :: datetime

datatype qm_effect =
    MetagraphSync
  | DendriteForward "axon_info list" synapse
  | UpsertPredictions "prediction list"

definition query_neurons ::
  "query_miners_env \<Rightarrow> (nat \<times> axon_info) list \<Rightarrow> synapse \<Rightarrow> (nat \<times> synapse) list" where
  "query_neurons env axons_by_uid syn =
     (let axons_list = map snd axons_by_uid;
          responses = dendrite_forward env axons_list syn;
          axons_uids = map fst axons_by_uid
      in dict_of_items (zip axons_uids responses))"

text \<open>
  \<^verbatim>\<open>QueryMiners.run\<close>: the calls made on the metagraph, the dendrite and the store, in
  order, and how the run ended.
\<close>

definition run :: "query_miners_env \<Rightarrow> qm_effect list \<times> (py_error + unit)" where
  "run env =
     (let events = events_to_predict env in
      if length events = 0 then ([], Inr ())
      else
        (case make_predictions_synapse (env_parsers env) events of
           Inl e \<Rightarrow> ([], Inl e)
         | Inr syn \<Rightarrow>
             (let mg = synced_metagraph env; block = mg_block mg in
              case get_axons mg of
                Inl e \<Rightarrow> ([MetagraphSync], Inl e)
              | Inr axons \<Rightarrow>
                  if length axons = 0 then ([MetagraphSync], Inr ())
                  else
                    (let predictions_synapses = query_neurons env axons syn;
                         interval_start_minutes = get_interval_start_minutes (time_now env)
                     in case store_predictions mg block interval_start_minutes
                               predictions_synapses of
                          (batches, r) \<Rightarrow>
                            ([MetagraphSync, DendriteForward (map snd axons) syn]
                               @ map UpsertPredictions batches, r)))))"

text \<open>An entry of a reply that carries the given probability for an event.\<close>

definition reply_entry :: "string \<Rightarrow> real option \<Rightarrow> synapse_event" where
  "reply_entry eid p =
     \<lparr>se_event_id = eid, se_market_type = ''ifgames'', se_probability = p,
      se_miner_answered = (p \<noteq> None), se_description = [], se_cutoff = None,
      se_starts = None, se_resolve_date = None, se_end_date = None\<rparr>"

section \<open>The rate limit of the deprecated validator\<close>

text \<open>
  The part of \<^verbatim>\<open>Validator.forward\<close> that touches the clock. \<^verbatim>\<open>time.time()\<close> is a real
  number of seconds. The timing record gives the clock reading on entry and how long each
  stretch of the body takes: from entry to the call of \<^verbatim>\<open>query_miners\<close>, from that call to
  the rate-limit check (the query, the loop over the responses and the batch update),
  and from the end of the sleep to the \<^verbatim>\<open>finally\<close> clause.
\<close>

definition MIN_TIME_BETWEEN_QUERY_MINERS :: real where
  "MIN_TIME_BETWEEN_QUERY_MINERS = 300"

record validator_state =
  last_query_time :: real
  blocktime :: nat

datatype forward_event =
    QueryMinersAt real
  | SleepAt real real

record forward_timing =
  entered_at :: real
  until_query :: real
  until_check :: real
  until_finally :: real

text \<open>
  \<open>pytest_current_test\<close> says that the environment variable \<^verbatim>\<open>PYTEST_CURRENT_TEST\<close> is set.
  \<open>SleepAt t w\<close> is \<^verbatim>\<open>asyncio.sleep(w)\<close> started at clock reading \<open>t\<close>.
\<close>

definition forward ::
  "bool \<Rightarrow> forward_timing \<Rightarrow> validator_state \<Rightarrow> validator_state \<times> forward_event list" where
  "forward pytest_current_test tm s =
     (let query_at = entered_at tm + until_query tm;
          check_at = query_at + until_check tm;
          since_last_query = check_at - last_query_time s;
          wait_time = MIN_TIME_BETWEEN_QUERY_MINERS - since_last_query;
          waits = (since_last_query < MIN_TIME_BETWEEN_QUERY_MINERS \<and> \<not> pytest_current_test);
          finally_at = (if waits then check_at + wait_time else check_at) + until_finally tm
      in (s\<lparr>blocktime := blocktime s + 1, last_query_time := finally_at\<rparr>,
          QueryMinersAt query_at # (if waits then [SleepAt check_at wait_time] else [])))"

section \<open>Properties of the interval clock\<close>

lemma div_240_unique: "240 * k \<le> (t::int) \<Longrightarrow> t < 240 * k + 240 \<Longrightarrow> t div 240 = k"
proof -
  assume h: "240 * k \<le> t" "t < 240 * k + 240"
  define r where "r = t - 240 * k"
  have r: "0 \<le> r" "r < 240" using h by (simp_all add: r_def)
  have "t = r + k * 240" by (simp add: r_def)
  then have "t div 240 = (r + k * 240) div 240" by simp
  also have "\<dots> = r div 240 + k" by simp
  also have "r div 240 = 0" using r by simp
  finally show ?thesis by simp
qed

lemma interval_start_minutes_of_mult:
  "interval_start_minutes_of m = (m div 240) * 240"
  unfolding interval_start_minutes_of_def CLUSTERED_SUBMISSIONS_INTERVAL_MINUTES_def
  by (simp add: minus_mod_eq_div_mult)

lemma interval_start_minutes_of_mono:
  "a \<le> b \<Longrightarrow> interval_start_minutes_of a \<le> interval_start_minutes_of b"
  unfolding interval_start_minutes_of_mult
  by (simp add: zdiv_mono1)

lemma interval_start_minutes_of_le: "interval_start_minutes_of m \<le> m"
  unfolding interval_start_minutes_of_def CLUSTERED_SUBMISSIONS_INTERVAL_MINUTES_def
  by simp

lemma int_total_seconds_mono: "a \<le> b \<Longrightarrow> int_total_seconds a \<le> int_total_seconds b"
proof -
  assume ab: "a \<le> b"
  consider "0 \<le> a" | "a < 0" "0 \<le> b" | "b < 0" using ab by linarith
  then show ?thesis
  proof cases
    case 1
    then show ?thesis using ab by (simp add: int_total_seconds_def zdiv_mono1)
  next
    case 2
    have "0 \<le> (- a) div 1000000" using 2 by simp
    moreover have "0 \<le> b div 1000000" using 2 by simp
    ultimately show ?thesis using 2 by (simp add: int_total_seconds_def)
  next
    case 3
    have "(- b) div 1000000 \<le> (- a) div 1000000" using ab by (simp add: zdiv_mono1)
    then show ?thesis using 3 ab by (simp add: int_total_seconds_def)
  qed
qed

lemma minutes_since_epoch_mono: "a \<le> b \<Longrightarrow> minutes_since_epoch a \<le> minutes_since_epoch b"
  unfolding minutes_since_epoch_def
  by (simp add: int_total_seconds_mono zdiv_mono1)

lemma get_interval_start_minutes_mono:
  "a \<le> b \<Longrightarrow> get_interval_start_minutes a \<le> get_interval_start_minutes b"
  unfolding get_interval_start_minutes_def
  by (simp add: minutes_since_epoch_mono interval_start_minutes_of_mono)

lemma py_range_bounds:
  "x \<in> set (py_range i stop step) \<Longrightarrow> i \<le> x \<and> x < stop \<and> step dvd (x - i)"
proof (induction i stop step rule: py_range.induct)
  case (1 i stop step)
  show ?case
  proof (cases "0 < step \<and> i < stop")
    case True
    then have "x = i \<or> x \<in> set (py_range (i + step) stop step)"
      using "1.prems" by (subst (asm) py_range.simps) auto
    then show ?thesis
    proof
      assume "x = i"
      then show ?thesis using True by simp
    next
      assume "x \<in> set (py_range (i + step) stop step)"
      then have h: "i + step \<le> x \<and> x < stop \<and> step dvd (x - (i + step))"
        using "1.IH" True by blast
      have "step dvd (x - (i + step)) + step" using h by (intro dvd_add) simp_all
      moreover have "(x - (i + step)) + step = x - i" by simp
      ultimately have "step dvd (x - i)" by simp
      then show ?thesis using h True by simp
    qed
  next
    case False
    then show ?thesis using "1.prems" by (subst (asm) py_range.simps) simp
  qed
qed

text \<open>
  C5. On every timestamp \<open>t\<close>, given in minutes since the cluster epoch, the alignment
  function of the code is idempotent, satisfies
  \<open>intervalStart t \<le> t < intervalStart t + 240\<close>, yields a multiple of the width, and is the
  spec's \<open>floor (t / width) * width\<close>; the interval it names is the only aligned one that
  holds \<open>t\<close>.
\<close>

theorem interval_start_idempotent_and_bounds:
  "interval_start_minutes_of (interval_start_minutes_of t) = interval_start_minutes_of t
   \<and> interval_start_minutes_of t \<le> t
   \<and> t < interval_start_minutes_of t + 240
   \<and> interval_start_minutes_of t mod 240 = 0
   \<and> interval_start_minutes_of t = spec_intervalStart t
   \<and> (\<nexists>s. s mod 240 = 0 \<and> s \<le> t \<and> t < s + 240 \<and> s \<noteq> interval_start_minutes_of t)"
proof -
  have m: "interval_start_minutes_of t = (t div 240) * 240"
    by (rule interval_start_minutes_of_mult)
  have idem: "interval_start_minutes_of (interval_start_minutes_of t) = interval_start_minutes_of t"
    unfolding interval_start_minutes_of_def CLUSTERED_SUBMISSIONS_INTERVAL_MINUTES_def
    by (simp add: mod_simps)
  have lo: "interval_start_minutes_of t \<le> t"
    by (rule interval_start_minutes_of_le)
  have hi: "t < interval_start_minutes_of t + 240"
    unfolding interval_start_minutes_of_def CLUSTERED_SUBMISSIONS_INTERVAL_MINUTES_def
    by (simp add: algebra_simps)
  have al: "interval_start_minutes_of t mod 240 = 0"
    unfolding m by simp
  have "\<lfloor>real_of_int t / real_of_int 240\<rfloor> = t div 240"
    by (rule floor_divide_of_int_eq)
  then have sp: "interval_start_minutes_of t = spec_intervalStart t"
    unfolding m spec_intervalStart_def by simp
  have un: "\<nexists>s. s mod 240 = 0 \<and> s \<le> t \<and> t < s + 240 \<and> s \<noteq> interval_start_minutes_of t"
  proof
    assume "\<exists>s. s mod 240 = 0 \<and> s \<le> t \<and> t < s + 240 \<and> s \<noteq> interval_start_minutes_of t"
    then obtain s where s: "s mod 240 = 0" "s \<le> t" "t < s + 240"
      "s \<noteq> interval_start_minutes_of t" by (elim exE conjE)
    from s(1) obtain k where k: "s = 240 * k" by (auto simp: mod_eq_0_iff_dvd)
    have "t div 240 = k" using s(2,3) k by (intro div_240_unique) simp_all
    then show False using s(4) k m by simp
  qed
  from idem lo hi al sp un show ?thesis by blast
qed

section \<open>Properties of the scoring window\<close>

lemma py_range_map:
  "0 < step \<Longrightarrow> py_range i stop step = map (\<lambda>k. i + step * int k) [0..<nat ((stop - i + step - 1) div step)]"
proof (induction i stop step rule: py_range.induct)
  case (1 i stop step)
  show ?case
  proof (cases "i < stop")
    case True
    define n where "n = nat ((stop - (i + step) + step - 1) div step)"
    have ih: "py_range (i + step) stop step = map (\<lambda>k. i + step + step * int k) [0..<n]"
      using "1.IH" "1.prems" True by (simp add: n_def)
    have "(stop - i + step - 1) div step = ((stop - i - 1) + step) div step"
      by (rule arg_cong [where f = "\<lambda>x. x div step"]) simp
    also have "\<dots> = (stop - i - 1) div step + 1"
      using "1.prems" by (subst div_add_self2) simp_all
    finally have "(stop - i + step - 1) div step = (stop - i - 1) div step + 1" .
    moreover have "0 \<le> (stop - i - 1) div step"
      using True "1.prems" by (simp add: pos_imp_zdiv_nonneg_iff)
    ultimately have n: "nat ((stop - i + step - 1) div step) = Suc n"
      by (simp add: n_def nat_add_distrib)
    have "map (\<lambda>k. i + step * int k) [0..<Suc n] = i # map (\<lambda>k. i + step + step * int k) [0..<n]"
      by (simp add: upt_conv_Cons map_Suc_upt [symmetric] algebra_simps del: upt_Suc)
    then show ?thesis
      using True "1.prems" ih n by (subst py_range.simps) simp
  next
    case False
    then have "(stop - i + step - 1) div step \<le> (step - 1) div step"
      using "1.prems" by (intro zdiv_mono1) simp_all
    moreover have "(step - 1) div step = 0"
      using "1.prems" by (simp add: div_pos_pos_trivial)
    ultimately have "(stop - i + step - 1) div step \<le> 0" by simp
    then show ?thesis using False by (subst py_range.simps) simp
  qed
qed

lemma effective_finish_is_interval_of_min:
  "effective_finish_start_minutes cutoff now = get_interval_start_minutes (min cutoff now)"
proof (cases "cutoff \<le> now")
  case True
  then have "get_interval_start_minutes cutoff \<le> get_interval_start_minutes now"
    by (rule get_interval_start_minutes_mono)
  then show ?thesis using True
    by (simp add: effective_finish_start_minutes_def cutoff_interval_start_minutes_def
        now_interval_start_minutes_def get_interval_start_minutes_def min_def)
next
  case False
  then have "get_interval_start_minutes now \<le> get_interval_start_minutes cutoff"
    by (intro get_interval_start_minutes_mono) simp
  then show ?thesis using False
    by (simp add: effective_finish_start_minutes_def cutoff_interval_start_minutes_def
        now_interval_start_minutes_def get_interval_start_minutes_def min_def)
qed

lemma effective_finish_mult:
  "\<exists>b. effective_finish_start_minutes cutoff now = 240 * b"
  unfolding effective_finish_is_interval_of_min get_interval_start_minutes_def
    interval_start_minutes_of_mult by (simp add: mult.commute)

lemma start_interval_mult:
  "\<exists>a. start_interval_start_minutes reg_date = 240 * a"
  unfolding start_interval_start_minutes_def interval_start_minutes_of_mult
  by (simp add: mult.commute)

lemma total_intervals_exact:
  "total_intervals reg_date cutoff now * 240 =
     effective_finish_start_minutes cutoff now - start_interval_start_minutes reg_date"
proof -
  obtain a b where ab: "start_interval_start_minutes reg_date = 240 * a"
    "effective_finish_start_minutes cutoff now = 240 * b"
    using effective_finish_mult start_interval_mult by blast
  have "240 * b - 240 * a = 240 * (b - a)" by (simp add: algebra_simps)
  then show ?thesis
    unfolding total_intervals_def CLUSTERED_SUBMISSIONS_INTERVAL_MINUTES_def ab by simp
qed

lemma scoring_window_map:
  "scoring_window reg_date cutoff now =
     map (\<lambda>k. start_interval_start_minutes reg_date + 240 * int k)
       [0..<nat (total_intervals reg_date cutoff now)]"
proof -
  let ?s = "start_interval_start_minutes reg_date"
  let ?f = "effective_finish_start_minutes cutoff now"
  let ?t = "total_intervals reg_date cutoff now"
  have e: "?f - ?s = ?t * 240" using total_intervals_exact [of reg_date cutoff now] by simp
  have "(?f - ?s + 240 - 1) div 240 = (239 + ?t * 240) div 240" unfolding e by simp
  also have "\<dots> = 239 div 240 + ?t" by simp
  finally have "(?f - ?s + 240 - 1) div 240 = ?t" by simp
  then show ?thesis
    unfolding scoring_window_def CLUSTERED_SUBMISSIONS_INTERVAL_MINUTES_def
    by (subst py_range_map) simp_all
qed

lemma scoring_window_member:
  assumes "x \<in> set (scoring_window reg_date cutoff now)"
  shows "\<exists>k. x = start_interval_start_minutes reg_date + 240 * k \<and> 0 \<le> k
             \<and> k < total_intervals reg_date cutoff now"
proof -
  from assms obtain k where k: "x = start_interval_start_minutes reg_date + 240 * int k"
    "k < nat (total_intervals reg_date cutoff now)"
    unfolding scoring_window_map by auto
  then have "int k < total_intervals reg_date cutoff now" by linarith
  then show ?thesis using k(1) by (intro exI [of _ "int k"]) simp
qed

lemma minutes_since_epoch_le:
  "0 \<le> d \<Longrightarrow> epoch_plus_minutes (minutes_since_epoch d) \<le> d"
proof -
  assume d: "0 \<le> d"
  have "minutes_since_epoch d * 60 \<le> d div 1000000"
    using d by (simp add: minutes_since_epoch_def int_total_seconds_def)
  then have "minutes_since_epoch d * 60 * 1000000 \<le> (d div 1000000) * 1000000" by simp
  also have "\<dots> \<le> d" by simp
  finally show ?thesis by (simp add: epoch_plus_minutes_def)
qed

text \<open>
  C4. The scoring window of a settled event starts at the interval of the event's
  registration time and ends (exclusively) at the interval of the earlier of the
  submission cutoff and the current time; \<open>total_intervals\<close> is the exact quotient of its
  length by the width of 240 minutes, the loop visits exactly the \<open>total_intervals\<close>
  aligned intervals from the start, and each of them ends no later than the earlier of
  cutoff and now.
\<close>

theorem scoring_window_spans_registration_to_min_cutoff_now:
  "start_interval_start_minutes reg_date = get_interval_start_minutes reg_date
   \<and> effective_finish_start_minutes cutoff now = get_interval_start_minutes (min cutoff now)
   \<and> total_intervals reg_date cutoff now * 240 =
       effective_finish_start_minutes cutoff now - start_interval_start_minutes reg_date
   \<and> scoring_window reg_date cutoff now =
       map (\<lambda>k. start_interval_start_minutes reg_date + 240 * int k)
         [0..<nat (total_intervals reg_date cutoff now)]
   \<and> (\<forall>x \<in> set (scoring_window reg_date cutoff now).
         start_interval_start_minutes reg_date \<le> x
         \<and> x + 240 \<le> get_interval_start_minutes (min cutoff now)
         \<and> (0 \<le> min cutoff now \<longrightarrow> epoch_plus_minutes (x + 240) \<le> min cutoff now))"
proof -
  let ?s = "start_interval_start_minutes reg_date"
  let ?f = "effective_finish_start_minutes cutoff now"
  let ?t = "total_intervals reg_date cutoff now"
  have a: "?s = get_interval_start_minutes reg_date"
    by (simp add: start_interval_start_minutes_def get_interval_start_minutes_def)
  have b: "?f = get_interval_start_minutes (min cutoff now)"
    by (rule effective_finish_is_interval_of_min)
  have c: "?t * 240 = ?f - ?s" by (rule total_intervals_exact)
  have d: "scoring_window reg_date cutoff now = map (\<lambda>k. ?s + 240 * int k) [0..<nat ?t]"
    by (rule scoring_window_map)
  have e: "?s \<le> x \<and> x + 240 \<le> get_interval_start_minutes (min cutoff now)
         \<and> (0 \<le> min cutoff now \<longrightarrow> epoch_plus_minutes (x + 240) \<le> min cutoff now)"
    if x: "x \<in> set (scoring_window reg_date cutoff now)" for x
  proof -
    from scoring_window_member [OF x] obtain k where k: "x = ?s + 240 * k" "0 \<le> k" "k < ?t"
      by blast
    have lo: "?s \<le> x" using k by simp
    have "x + 240 \<le> ?s + ?t * 240" using k by simp
    then have hi: "x + 240 \<le> get_interval_start_minutes (min cutoff now)"
      using b c by simp
    have "epoch_plus_minutes (x + 240) \<le> min cutoff now" if nn: "0 \<le> min cutoff now"
    proof -
      have "x + 240 \<le> minutes_since_epoch (min cutoff now)"
        using hi interval_start_minutes_of_le [of "minutes_since_epoch (min cutoff now)"]
        by (simp add: get_interval_start_minutes_def)
      then have "epoch_plus_minutes (x + 240) \<le> epoch_plus_minutes (minutes_since_epoch (min cutoff now))"
        by (simp add: epoch_plus_minutes_def)
      then show ?thesis using minutes_since_epoch_le [OF nn] by linarith
    qed
    then show ?thesis using lo hi by blast
  qed
  from a b c d e show ?thesis by blast
qed

theorem scoring_window_spans_registration_to_min_cutoff_now_witness:
  "scoring_window 0 28800000000 100000000000 = [0, 240]
   \<and> total_intervals 0 28800000000 100000000000 = 2
   \<and> (0::int) \<le> min 28800000000 100000000000
   \<and> epoch_plus_minutes (0 + 240) \<le> min 28800000000 100000000000
   \<and> epoch_plus_minutes (240 + 240) \<le> min 28800000000 100000000000"
  using scoring_window_spans_registration_to_min_cutoff_now [of 0 28800000000 100000000000]
  by (simp add: scoring_window_def start_interval_start_minutes_def
      effective_finish_start_minutes_def cutoff_interval_start_minutes_def
      now_interval_start_minutes_def minutes_since_epoch_def int_total_seconds_def
      interval_start_minutes_of_def CLUSTERED_SUBMISSIONS_INTERVAL_MINUTES_def
      total_intervals_def epoch_plus_minutes_def py_range.simps)

section \<open>Bounds in the general branch\<close>




lemma interval_weight_bounds:
  assumes "0 \<le> cur" "cur < total_n"
  shows "\<exists>wk. interval_weight total_n cur = Inr wk \<and> 0 < wk \<and> wk \<le> 1"
proof (cases "cur + 1 \<le> first_n_intervals")
  case True
  then show ?thesis by (simp add: interval_weight_def)
next
  case False
  have pos: "0 < real_of_int (total_n - cur)" using assms by simp
  have "real_of_int (total_n - cur) \<le> real_of_int total_n" using assms by simp
  then have "1 \<le> real_of_int total_n / real_of_int (total_n - cur)"
    using pos by (simp add: le_divide_eq)
  then have "exp (- (real_of_int total_n / real_of_int (total_n - cur)) + 1) \<le> 1"
    by simp
  then show ?thesis using False assms by (simp add: interval_weight_def)
qed


lemma scoring_window_interval_no:
  assumes "i \<in> set (scoring_window reg_date cutoff now)"
  shows "0 \<le> (i - start_interval_start_minutes reg_date) div 240
       \<and> (i - start_interval_start_minutes reg_date) div 240 < total_intervals reg_date cutoff now"
proof -
  from scoring_window_member [OF assms] obtain k where
    k: "i = start_interval_start_minutes reg_date + 240 * k" "0 \<le> k"
       "k < total_intervals reg_date cutoff now" by blast
  have "(i - start_interval_start_minutes reg_date) div 240 = k" using k(1) by simp
  then show ?thesis using k by simp
qed


lemmas window_defs = scoring_window_def start_interval_start_minutes_def
      effective_finish_start_minutes_def cutoff_interval_start_minutes_def
      now_interval_start_minutes_def minutes_since_epoch_def int_total_seconds_def
      interval_start_minutes_of_def CLUSTERED_SUBMISSIONS_INTERVAL_MINUTES_def
      total_intervals_def epoch_plus_minutes_def py_range.simps




section \<open>The settlement hook returns\<close>

lemma intervals_loop_total:
  assumes "\<forall>i \<in> set window. 0 \<le> (i - start) div 240 \<and> (i - start) div 240 < total_n"
  shows "\<exists>r. intervals_loop reg p start total_n y window acc = Inr r"
  using assms
proof (induction window arbitrary: acc)
  case Nil
  then show ?case by simp
next
  case (Cons i rest)
  obtain mk ws where acc: "acc = (mk, ws)" by (cases acc)
  have "0 \<le> (i - start) div 240" "(i - start) div 240 < total_n" using Cons.prems by simp_all
  then obtain wk where wk: "interval_weight total_n ((i - start) div 240) = Inr wk"
    using interval_weight_bounds by blast
  have "\<forall>i \<in> set rest. 0 \<le> (i - start) div 240 \<and> (i - start) div 240 < total_n"
    using Cons.prems by simp
  from Cons.IH [OF this] show ?case
    using wk acc by (simp add: CLUSTERED_SUBMISSIONS_INTERVAL_MINUTES_def)
qed

lemma general_score_total: "\<exists>s. general_score reg reg_date p cutoff now y = Inr s"
proof -
  have w: "\<forall>i \<in> set (scoring_window reg_date cutoff now).
      0 \<le> (i - start_interval_start_minutes reg_date) div 240
      \<and> (i - start_interval_start_minutes reg_date) div 240 < total_intervals reg_date cutoff now"
    using scoring_window_interval_no by blast
  from intervals_loop_total [OF w, of reg p y "([], 0)"]
  obtain r where "intervals_loop reg p (start_interval_start_minutes reg_date)
      (total_intervals reg_date cutoff now) y (scoring_window reg_date cutoff now) ([], 0) = Inr r"
    by blast
  then show ?thesis by (cases r) (simp add: general_score_def)
qed

lemma azuro_answer_total: "d \<noteq> [] \<Longrightarrow> \<exists>a. azuro_answer d = Inr a"
  by (simp add: azuro_answer_def)

lemma azuro_score_total: "\<exists>s. azuro_score reg cutoff p y = Inr s"
proof (cases "reg \<ge> cutoff \<or> not_intervals p")
  case True
  then show ?thesis by (auto simp add: azuro_score_def)
next
  case False
  then have "intervals_or_empty p \<noteq> []"
    by (auto simp add: not_intervals_def intervals_or_empty_def split: option.splits)
  then obtain a where "azuro_answer (intervals_or_empty p) = Inr a"
    using azuro_answer_total by blast
  then show ?thesis using False by (simp add: azuro_score_def)
qed

lemma miner_score_total: "\<exists>s. miner_score ctx pe y uid = Inr s"
  using azuro_score_total general_score_total by (simp add: miner_score_def Let_def)

lemma scores_loop_total:
  "\<exists>ss. scores_loop ctx pe y uids = Inr ss \<and> map Inr ss = map (miner_score ctx pe y) uids"
proof (induction uids)
  case Nil
  then show ?case by simp
next
  case (Cons uid uids)
  obtain s where s: "miner_score ctx pe y uid = Inr s" using miner_score_total by blast
  from Cons.IH obtain ss where ss: "scores_loop ctx pe y uids = Inr ss"
    "map Inr ss = map (miner_score ctx pe y) uids" by blast
  show ?case using s ss by simp
qed

text \<open>
  C2, as the code has it. The settlement hook raises nothing and returns \<open>True\<close> exactly
  for a settled event: after scoring it (one score update and one export) when it has a
  ground truth and submissions exist, and without any call when it has no ground truth or
  no submissions exist. For a discarded event it removes the event from the registry
  itself and returns \<open>False\<close>; for any other event it returns \<open>False\<close> and calls nothing.
\<close>

theorem on_event_update_return_value:
  "\<exists>effects. on_event_update ctx pe = Inr (status pe = SETTLED, effects)
     \<and> (status pe = DISCARDED \<longrightarrow> effects = [RemoveEvent (event_id pe)])
     \<and> (status pe = PENDING \<longrightarrow> effects = [])
     \<and> (status pe = SETTLED \<and> answer pe = None \<longrightarrow> effects = [])
     \<and> (status pe = SETTLED \<and> event_predictions ctx = [] \<longrightarrow> effects = [])
     \<and> (status pe = SETTLED \<and> answer pe \<noteq> None \<and> event_predictions ctx \<noteq> [] \<longrightarrow>
          (\<exists>brier_scores.
             map Inr brier_scores = map (miner_score ctx pe (the (answer pe))) (miner_uids ctx)
             \<and> effects =
                 [UpdateScores (normalized_scores brier_scores) (miner_uids ctx),
                  ExportScores (zip (miner_uids ctx)
                    (zip brier_scores (normalized_scores brier_scores)))]))"
proof (cases "status pe")
  case PENDING
  then show ?thesis by (simp add: on_event_update_def)
next
  case DISCARDED
  then show ?thesis by (simp add: on_event_update_def)
next
  case SETTLED
  show ?thesis
  proof (cases "answer pe")
    case None
    then show ?thesis using SETTLED by (simp add: on_event_update_def)
  next
    case (Some y)
    show ?thesis
    proof (cases "event_predictions ctx = []")
      case True
      then show ?thesis using SETTLED Some by (simp add: on_event_update_def)
    next
      case False
      obtain ss where ss: "scores_loop ctx pe y (miner_uids ctx) = Inr ss"
        "map Inr ss = map (miner_score ctx pe y) (miner_uids ctx)"
        using scores_loop_total by blast
      then show ?thesis using SETTLED Some False
        by (simp add: on_event_update_def Let_def) (rule exI [of _ ss], simp)
    qed
  qed
qed

text \<open>
  The claim C2 as stated asks for \<open>True\<close> on a discarded event and for \<open>False\<close> on a settled
  event without ground truth or without submissions; the hook returns the opposite in
  all three cases.
\<close>

theorem on_event_update_return_value_counterexample:
  "on_event_update
      \<lparr>metagraph_n = 1, event_predictions = [(0, [(0, Some (9 / 10))])],
       latest_submit_date = 28800000000, clock_now = 100000000000,
       miner_registered_date = all_registered_at 0\<rparr>
      \<lparr>event_id = ''e1'', status = DISCARDED, answer = None, registered_date = 0,
       market_type = ''ifgames'', metadata = []\<rparr>
     = Inr (False, [RemoveEvent ''e1''])
   \<and> on_event_update
      \<lparr>metagraph_n = 1, event_predictions = [(0, [(0, Some (9 / 10))])],
       latest_submit_date = 28800000000, clock_now = 100000000000,
       miner_registered_date = all_registered_at 0\<rparr>
      \<lparr>event_id = ''e1'', status = SETTLED, answer = None, registered_date = 0,
       market_type = ''ifgames'', metadata = []\<rparr>
     = Inr (True, [])
   \<and> on_event_update
      \<lparr>metagraph_n = 1, event_predictions = [],
       latest_submit_date = 28800000000, clock_now = 100000000000,
       miner_registered_date = all_registered_at 0\<rparr>
      \<lparr>event_id = ''e1'', status = SETTLED, answer = Some 1, registered_date = 0,
       market_type = ''ifgames'', metadata = []\<rparr>
     = Inr (True, [])"
  by (simp add: on_event_update_def)

theorem on_event_update_return_value_witness:
  "(\<exists>effects.
      on_event_update
        \<lparr>metagraph_n = 1, event_predictions = [(0, [(0, Some (9 / 10))])],
         latest_submit_date = 28800000000, clock_now = 100000000000,
         miner_registered_date = all_registered_at 0\<rparr>
        \<lparr>event_id = ''e1'', status = SETTLED, answer = Some 1, registered_date = 0,
         market_type = ''ifgames'', metadata = []\<rparr>
      = Inr (True, effects) \<and> length effects = 2)
   \<and> (\<exists>effects.
      on_event_update
        \<lparr>metagraph_n = 1, event_predictions = [(0, [(0, Some (9 / 10))])],
         latest_submit_date = 28800000000, clock_now = 100000000000,
         miner_registered_date = all_registered_at 0\<rparr>
        \<lparr>event_id = ''e1'', status = DISCARDED, answer = None, registered_date = 0,
         market_type = ''ifgames'', metadata = []\<rparr>
      = Inr (False, effects) \<and> effects = [RemoveEvent ''e1''])
   \<and> (\<exists>effects.
      on_event_update
        \<lparr>metagraph_n = 1, event_predictions = [(0, [(0, Some (9 / 10))])],
         latest_submit_date = 28800000000, clock_now = 100000000000,
         miner_registered_date = all_registered_at 0\<rparr>
        \<lparr>event_id = ''e1'', status = PENDING, answer = None, registered_date = 0,
         market_type = ''ifgames'', metadata = []\<rparr>
      = Inr (False, effects) \<and> effects = [])
   \<and> (\<exists>effects.
      on_event_update
        \<lparr>metagraph_n = 1, event_predictions = [],
         latest_submit_date = 28800000000, clock_now = 100000000000,
         miner_registered_date = all_registered_at 0\<rparr>
        \<lparr>event_id = ''e1'', status = SETTLED, answer = None, registered_date = 0,
         market_type = ''ifgames'', metadata = []\<rparr>
      = Inr (True, effects) \<and> effects = [])"
  using on_event_update_return_value
      [of "\<lparr>metagraph_n = 1, event_predictions = [(0, [(0, Some (9 / 10))])],
         latest_submit_date = 28800000000, clock_now = 100000000000,
         miner_registered_date = all_registered_at 0\<rparr>"
        "\<lparr>event_id = ''e1'', status = SETTLED, answer = Some 1, registered_date = 0,
         market_type = ''ifgames'', metadata = []\<rparr>"]
    on_event_update_return_value
      [of "\<lparr>metagraph_n = 1, event_predictions = [(0, [(0, Some (9 / 10))])],
         latest_submit_date = 28800000000, clock_now = 100000000000,
         miner_registered_date = all_registered_at 0\<rparr>"
        "\<lparr>event_id = ''e1'', status = DISCARDED, answer = None, registered_date = 0,
         market_type = ''ifgames'', metadata = []\<rparr>"]
    on_event_update_return_value
      [of "\<lparr>metagraph_n = 1, event_predictions = [(0, [(0, Some (9 / 10))])],
         latest_submit_date = 28800000000, clock_now = 100000000000,
         miner_registered_date = all_registered_at 0\<rparr>"
        "\<lparr>event_id = ''e1'', status = PENDING, answer = None, registered_date = 0,
         market_type = ''ifgames'', metadata = []\<rparr>"]
    on_event_update_return_value
      [of "\<lparr>metagraph_n = 1, event_predictions = [],
         latest_submit_date = 28800000000, clock_now = 100000000000,
         miner_registered_date = all_registered_at 0\<rparr>"
        "\<lparr>event_id = ''e1'', status = SETTLED, answer = None, registered_date = 0,
         market_type = ''ifgames'', metadata = []\<rparr>"]
  by auto

section \<open>Normalisation\<close>

lemma sum_list_divide_const:
  "sum_list (map (\<lambda>x. x / c) (w :: real list)) = sum_list w / c"
  by (induction w) (simp_all add: add_divide_distrib)

lemma sharpen_nonneg:
  "\<not> list_all (\<lambda>score. score \<le> 0) v \<Longrightarrow> \<forall>x \<in> set (sharpen v). 0 \<le> x"
  by (auto simp add: sharpen_def)

lemma sum_list_abs_nonneg: "\<forall>x \<in> set (w :: real list). 0 \<le> x \<Longrightarrow> map abs w = w"
  by (induction w) simp_all

lemma round_half_even_bounds: "\<lfloor>r\<rfloor> \<le> round_half_even r \<and> round_half_even r \<le> \<lfloor>r\<rfloor> + 1"
  by (simp add: round_half_even_def Let_def)

lemma round_half_even_zero_iff_small:
  assumes "0 \<le> r" "r \<le> 1 / 2"
  shows "round_half_even r = 0"
proof -
  have f: "\<lfloor>r\<rfloor> = 0" using assms by (simp add: floor_eq_iff)
  show ?thesis using assms f by (simp add: round_half_even_def Let_def)
qed

lemma round_half_even_pos:
  assumes "1 / 2 < r"
  shows "1 \<le> round_half_even r"
proof (cases "\<lfloor>r\<rfloor> = 0")
  case True
  then show ?thesis using assms by (simp add: round_half_even_def Let_def)
next
  case False
  have "0 \<le> \<lfloor>r\<rfloor>" using assms by simp
  then have "1 \<le> \<lfloor>r\<rfloor>" using False by linarith
  then show ?thesis using round_half_even_bounds [of r] by linarith
qed

lemma round_half_even_nonpos:
  assumes "r \<le> 0"
  shows "round_half_even r \<le> 0"
proof (cases "r = 0")
  case True
  then show ?thesis by (simp add: round_half_even_def)
next
  case False
  then have "r < 0" using assms by simp
  then have "\<lfloor>r\<rfloor> \<le> - 1" by (simp add: floor_le_iff)
  then show ?thesis using round_half_even_bounds [of r] by linarith
qed

lemma to_float32_zero_below:
  assumes "0 \<le> x" "x \<le> 1 / 2 ^ 150"
  shows "to_float32 x = 0"
proof -
  have a: "\<bar>x\<bar> < 1 / 2 ^ 126"
  proof -
    have "(1::real) / 2 ^ 150 < 1 / 2 ^ 126" by simp
    then show ?thesis using assms by linarith
  qed
  have "x * 2 ^ 149 \<le> (1 / 2 ^ 150) * 2 ^ 149" using assms(2) by (intro mult_right_mono) simp_all
  also have "\<dots> = 1 / 2" by simp
  finally have "x * 2 ^ 149 \<le> 1 / 2" .
  moreover have "0 \<le> x * 2 ^ 149" using assms(1) by simp
  ultimately have "round_half_even (x * 2 ^ 149) = 0" by (intro round_half_even_zero_iff_small)
  then show ?thesis using a by (simp add: to_float32_def)
qed

lemma to_float32_nonpos:
  assumes "x \<le> 0"
  shows "to_float32 x \<le> 0"
proof (cases "\<bar>x\<bar> < 1 / 2 ^ 126")
  case True
  have "x * 2 ^ 149 \<le> 0" using assms by (simp add: mult_le_0_iff)
  then have "round_half_even (x * 2 ^ 149) \<le> 0" by (rule round_half_even_nonpos)
  then have "real_of_int (round_half_even (x * 2 ^ 149)) / 2 ^ 149 \<le> 0"
    by (simp add: divide_le_0_iff)
  then show ?thesis using True by (simp add: to_float32_def)
next
  case False
  define q where "q = 2 powr (real_of_int \<lfloor>log 2 \<bar>x\<bar>\<rfloor> - 23)"
  have q: "0 < q" by (simp add: q_def)
  have "x / q \<le> 0" using assms q by (simp add: divide_le_0_iff)
  then have "round_half_even (x / q) \<le> 0" by (rule round_half_even_nonpos)
  then have "real_of_int (round_half_even (x / q)) * q \<le> 0"
    using q by (simp add: mult_le_0_iff)
  then show ?thesis using False by (simp add: to_float32_def Let_def q_def)
qed

lemma to_float32_pos:
  assumes "1 / 2 ^ 150 < x"
  shows "0 < to_float32 x"
proof (cases "\<bar>x\<bar> < 1 / 2 ^ 126")
  case True
  have "(1 / 2 ^ 150) * 2 ^ 149 < x * 2 ^ 149" using assms by (intro mult_strict_right_mono) simp_all
  moreover have "(1 / 2 ^ 150) * 2 ^ 149 = (1 / 2 :: real)" by simp
  ultimately have "1 / 2 < x * 2 ^ 149" by simp
  then have "1 \<le> round_half_even (x * 2 ^ 149)" by (rule round_half_even_pos)
  then have "0 < real_of_int (round_half_even (x * 2 ^ 149)) / 2 ^ 149" by simp
  then show ?thesis using True by (simp add: to_float32_def)
next
  case False
  have xpos: "0 < x"
  proof -
    have "(0::real) < 1 / 2 ^ 150" by simp
    then show ?thesis using assms by linarith
  qed
  define e where "e = real_of_int \<lfloor>log 2 \<bar>x\<bar>\<rfloor>"
  define q where "q = 2 powr (e - 23)"
  have q: "0 < q" by (simp add: q_def)
  have "e \<le> log 2 x" using xpos by (simp add: e_def)
  then have "2 powr e \<le> 2 powr (log 2 x)" by simp
  then have le: "2 powr e \<le> x" using xpos by simp
  have "q = 2 powr e / 2 ^ 23" by (simp add: q_def powr_diff)
  then have "q \<le> x / 2 ^ 23" using le by (simp add: divide_right_mono)
  then have "q * 2 ^ 23 \<le> x" by (simp add: le_divide_eq)
  then have "2 ^ 23 \<le> x / q" using q by (simp add: le_divide_eq mult.commute)
  moreover have "(1 / 2 :: real) < 2 ^ 23" by simp
  ultimately have "1 / 2 < x / q" by (rule less_le_trans [rotated])
  then have "1 \<le> round_half_even (x / q)" by (rule round_half_even_pos)
  then have "0 < real_of_int (round_half_even (x / q)) * q" using q by simp
  then show ?thesis using False by (simp add: to_float32_def Let_def q_def e_def)
qed

lemma to_float32_pos_iff: "0 < to_float32 x \<longleftrightarrow> 1 / 2 ^ 150 < x"
proof
  assume p: "0 < to_float32 x"
  show "1 / 2 ^ 150 < x"
  proof (rule ccontr)
    assume "\<not> 1 / 2 ^ 150 < x"
    then have le: "x \<le> 1 / 2 ^ 150" by simp
    show False
    proof (cases "0 \<le> x")
      case True
      then have "to_float32 x = 0" using le by (rule to_float32_zero_below)
      then show False using p by simp
    next
      case False
      then have "to_float32 x \<le> 0" by (intro to_float32_nonpos) simp
      then show False using p by simp
    qed
  qed
next
  assume "1 / 2 ^ 150 < x"
  then show "0 < to_float32 x" by (rule to_float32_pos)
qed

lemma to_float32_zero: "to_float32 0 = 0"
  using to_float32_zero_below [of 0] by simp

lemma l1_normalize_sharpen_sum:
  assumes "\<exists>s \<in> set v. 0 < s"
  shows "sum_list (l1_normalize (sharpen v)) = 1"
proof -
  from assms obtain s where s: "s \<in> set v" "0 < s" by blast
  have "\<not> s \<le> 0" using s(2) by simp
  then have na: "\<not> list_all (\<lambda>score. score \<le> 0) v"
    using s(1) by (auto simp add: list_all_iff)
  let ?w = "sharpen v"
  have nn: "\<forall>x \<in> set ?w. 0 \<le> x" using na by (rule sharpen_nonneg)
  then have ab: "map abs ?w = ?w" by (rule sum_list_abs_nonneg)
  have "exp (30 * s) \<in> set ?w" using s na by (auto simp add: sharpen_def)
  then have "exp (30 * s) \<le> sum_list ?w" using nn by (intro member_le_sum_list) auto
  moreover have "1 < exp (30 * s)" using s(2) by simp
  ultimately have big: "1 < sum_list ?w" by linarith
  then have "max (sum_list ?w) (1 / 10 ^ 12) = sum_list ?w" by (simp add: max_def)
  then have "sum_list (l1_normalize ?w) = sum_list ?w / sum_list ?w"
    by (simp add: l1_normalize_def ab sum_list_divide_const)
  then show ?thesis using big by simp
qed

lemma l1_normalize_sharpen_zero:
  assumes "\<forall>s \<in> set v. s = 0"
  shows "l1_normalize (sharpen v) = v"
proof -
  have "list_all (\<lambda>score. score \<le> 0) v" using assms by (auto simp add: list_all_iff)
  then have sh: "sharpen v = v" by (simp add: sharpen_def)
  have "map (\<lambda>x. x / c) v = v" for c using assms by (induction v) simp_all
  then show ?thesis by (simp add: sh l1_normalize_def)
qed

text \<open>
  C6, as the code has it. The raw scores are first stored in single precision, where a
  raw score is positive exactly when it exceeds \<open>2 ^ -150\<close>. For every vector of raw
  scores: if at least one raw score exceeds \<open>2 ^ -150\<close>, the scores after sharpening the
  non-zero entries with \<open>exp (30 * score)\<close> and L1-normalising sum to 1; if every raw score
  lies between 0 and \<open>2 ^ -150\<close>, every normalised score is 0; and if every raw score is 0,
  the vector is left as it is.
\<close>

theorem normalized_scores_sum_to_one_or_stay_zero:
  "((\<exists>s \<in> set raw. 1 / 2 ^ 150 < s) \<longrightarrow> sum_list (normalized_scores raw) = 1)
   \<and> ((\<exists>s \<in> set raw. 0 < to_float32 s) \<longleftrightarrow> (\<exists>s \<in> set raw. 1 / 2 ^ 150 < s))
   \<and> ((\<forall>s \<in> set raw. 0 \<le> s \<and> s \<le> 1 / 2 ^ 150) \<longrightarrow>
        (\<forall>x \<in> set (normalized_scores raw). x = 0))
   \<and> ((\<forall>s \<in> set raw. s = 0) \<longrightarrow>
        normalized_scores raw = raw \<and> (\<forall>x \<in> set (normalized_scores raw). x = 0))"
proof (intro conjI impI)
  assume "\<exists>s \<in> set raw. 1 / 2 ^ 150 < s"
  then have "\<exists>t \<in> set (map to_float32 raw). 0 < t"
    using to_float32_pos by auto
  then show "sum_list (normalized_scores raw) = 1"
    unfolding normalized_scores_def by (rule l1_normalize_sharpen_sum)
next
  show "(\<exists>s \<in> set raw. 0 < to_float32 s) \<longleftrightarrow> (\<exists>s \<in> set raw. 1 / 2 ^ 150 < s)"
    by (simp only: to_float32_pos_iff)
next
  assume "\<forall>s \<in> set raw. 0 \<le> s \<and> s \<le> 1 / 2 ^ 150"
  then have z: "\<forall>t \<in> set (map to_float32 raw). t = 0"
    using to_float32_zero_below by auto
  then have "normalized_scores raw = map to_float32 raw"
    unfolding normalized_scores_def by (rule l1_normalize_sharpen_zero)
  then show "\<forall>x \<in> set (normalized_scores raw). x = 0" using z by simp
next
  assume z: "\<forall>s \<in> set raw. s = 0"
  then have m: "map to_float32 raw = raw"
    by (induction raw) (simp_all add: to_float32_zero)
  have "l1_normalize (sharpen raw) = raw" using z by (rule l1_normalize_sharpen_zero)
  then show "normalized_scores raw = raw" by (simp add: normalized_scores_def m)
  then show "\<forall>x \<in> set (normalized_scores raw). x = 0" using z by simp
qed

theorem normalized_scores_sum_to_one_or_stay_zero_witness:
  "(\<exists>s \<in> set [0, 1 :: real]. 1 / 2 ^ 150 < s) \<and> sum_list (normalized_scores [0, 1]) = 1
   \<and> set [0, 0 :: real] = {0} \<and> normalized_scores [0, 0] = [0, 0]
   \<and> (0 :: real) \<le> 1 / 10 ^ 54 \<and> (1 :: real) / 10 ^ 54 \<le> 1 / 2 ^ 150
   \<and> set (normalized_scores [1 / 10 ^ 54, 0]) \<subseteq> {0}"
proof -
  have h1: "\<exists>s \<in> set [0, 1 :: real]. 1 / 2 ^ 150 < s" by simp
  have h2: "\<forall>s \<in> set [0, 0 :: real]. s = 0" by simp
  have h3: "(0 :: real) \<le> 1 / 10 ^ 54 \<and> (1 :: real) / 10 ^ 54 \<le> 1 / 2 ^ 150" by simp
  then have h4: "\<forall>s \<in> set [1 / 10 ^ 54, 0 :: real]. 0 \<le> s \<and> s \<le> 1 / 2 ^ 150" by simp
  have "sum_list (normalized_scores [0, 1]) = 1"
    using normalized_scores_sum_to_one_or_stay_zero [of "[0, 1]"] h1 by blast
  moreover have "normalized_scores [0, 0] = [0, 0]"
    using normalized_scores_sum_to_one_or_stay_zero [of "[0, 0]"] h2 by blast
  moreover have "set [0, 0 :: real] = {0}" by simp
  moreover have "set (normalized_scores [1 / 10 ^ 54, 0]) \<subseteq> {0}"
    using normalized_scores_sum_to_one_or_stay_zero [of "[1 / 10 ^ 54, 0]"] h4 by blast
  ultimately show ?thesis using h1 h3 by blast
qed

text \<open>
  The claim C6 as stated fails: the raw score \<open>1e-54\<close> is positive, yet single precision
  stores it as 0, the sharpening is skipped and the normalised scores sum to 0, not to 1.
\<close>

theorem normalized_scores_sum_to_one_or_stay_zero_counterexample:
  "(0 :: real) < 1 / 10 ^ 54
   \<and> to_float32 (1 / 10 ^ 54) = 0
   \<and> normalized_scores [1 / 10 ^ 54, 0] = [0, 0]
   \<and> sum_list (normalized_scores [1 / 10 ^ 54, 0]) = 0"
proof -
  have a: "to_float32 (1 / 10 ^ 54) = 0" by (rule to_float32_zero_below) simp_all
  have "map to_float32 [1 / 10 ^ 54, 0] = [0, 0]"
    by (simp only: list.map a to_float32_zero)
  then have "normalized_scores [1 / 10 ^ 54, 0] = l1_normalize (sharpen [0, 0])"
    by (simp only: normalized_scores_def)
  also have "\<dots> = [0, 0]" by (rule l1_normalize_sharpen_zero) simp
  finally have b: "normalized_scores [1 / 10 ^ 54, 0] = [0, 0]" .
  show ?thesis using a b by simp
qed

section \<open>Missing answers and the azuro branch\<close>






text \<open>
  C3, as the code has it. For an event of market type azuro and a peer that registered
  before the cutoff and has a non-empty dictionary of interval answers, the score is
  computed and is the raw accuracy (Brier-complement of the answer clamped to \<open>[0, 1]\<close>) of
  the answer stored under the interval key 0, or, when the dictionary has no key 0, of the
  answer stored under its greatest interval key; it is 0 when that entry holds no answer.
  The scoring window and the decay weights play no part.
\<close>

theorem azuro_score_uses_key_zero_or_greatest_key:
  assumes "event_market_type pe = ''azuro''"
    and "miner_registered_date ctx uid < latest_submit_date ctx"
    and "map_of (event_predictions ctx) uid = Some d"
    and "d \<noteq> []"
  shows "miner_score ctx pe y uid =
     Inr (case agg_prediction d (if 0 \<in> set (map fst d) then 0 else Max (set (map fst d))) of
            None \<Rightarrow> 0
          | Some a \<Rightarrow> 1 - (max 0 (min 1 a) - y)\<^sup>2)"
  using assms
  by (auto simp add: miner_score_def azuro_score_def azuro_answer_def not_intervals_def
      intervals_or_empty_def settle_answer_def brier_score_def clamp_answer_def
      split: option.splits)

theorem azuro_score_uses_key_zero_or_greatest_key_witness:
  "event_market_type \<lparr>event_id = ''e1'', status = SETTLED, answer = Some 1,
       registered_date = 14400000000, market_type = ''azuro'', metadata = []\<rparr> = ''azuro''
   \<and> all_registered_at 0 0 < 28800000000
   \<and> map_of [(0::nat, [(0::int, Some (7 / 10)), (240, Some (9 / 10))])] 0
        = Some [(0, Some (7 / 10)), (240, Some (9 / 10))]
   \<and> miner_score
        \<lparr>metagraph_n = 1,
         event_predictions = [(0, [(0, Some (7 / 10)), (240, Some (9 / 10))])],
         latest_submit_date = 28800000000, clock_now = 100000000000,
         miner_registered_date = all_registered_at 0\<rparr>
        \<lparr>event_id = ''e1'', status = SETTLED, answer = Some 1,
         registered_date = 14400000000, market_type = ''azuro'', metadata = []\<rparr> 1 0
      = Inr (91 / 100)"
  using azuro_score_uses_key_zero_or_greatest_key
    [of "\<lparr>event_id = ''e1'', status = SETTLED, answer = Some 1,
         registered_date = 14400000000, market_type = ''azuro'', metadata = []\<rparr>"
        "\<lparr>metagraph_n = 1,
         event_predictions = [(0, [(0, Some (7 / 10)), (240, Some (9 / 10))])],
         latest_submit_date = 28800000000, clock_now = 100000000000,
         miner_registered_date = all_registered_at 0\<rparr>" 0
        "[(0, Some (7 / 10)), (240, Some (9 / 10))]" 1]
  by (simp add: event_market_type_def agg_prediction_def all_registered_at_def power2_eq_square)

text \<open>
  The claim C3 as stated fails: the event is registered in the interval starting at minute
  240, the peer answered \<open>0.9\<close> in that first interval of the window and \<open>0.2\<close> in the next;
  the score is the accuracy \<open>0.36\<close> of the latest answer, not the accuracy \<open>0.99\<close> of the
  first interval's answer.
\<close>

theorem azuro_score_uses_key_zero_or_greatest_key_counterexample:
  "start_interval_start_minutes (registered_date
        \<lparr>event_id = ''e1'', status = SETTLED, answer = Some 1,
         registered_date = 14400000000, market_type = ''azuro'', metadata = []\<rparr>) = 240
   \<and> agg_prediction [(240, Some (9 / 10)), (480, Some (2 / 10))] 240 = Some (9 / 10)
   \<and> brier_score (clamp_answer (9 / 10)) 1 = 99 / 100
   \<and> miner_score
        \<lparr>metagraph_n = 1,
         event_predictions = [(0, [(240, Some (9 / 10)), (480, Some (2 / 10))])],
         latest_submit_date = 57600000000, clock_now = 100000000000,
         miner_registered_date = all_registered_at 0\<rparr>
        \<lparr>event_id = ''e1'', status = SETTLED, answer = Some 1,
         registered_date = 14400000000, market_type = ''azuro'', metadata = []\<rparr> 1 0
      = Inr (9 / 25)"
  by (simp add: window_defs miner_score_def azuro_score_def azuro_answer_def not_intervals_def
      intervals_or_empty_def settle_answer_def brier_score_def clamp_answer_def
      event_market_type_def agg_prediction_def all_registered_at_def power2_eq_square)

section \<open>The edge cases of the dispatcher\<close>

lemma get_axons_loop_none_serving:
  assumes "\<forall>uid \<in> set us. \<forall>a. axon_at mg uid = Inr (Some a) \<longrightarrow> \<not> is_serving a"
  shows "get_axons_loop mg us acc = Inr acc \<or> (\<exists>e. get_axons_loop mg us acc = Inl e)"
  using assms
proof (induction us)
  case Nil
  then show ?case by simp
next
  case (Cons uid rest)
  then show ?case
    by (cases "axon_at mg uid") (auto split: option.splits)
qed

text \<open>
  C10. \<^verbatim>\<open>QueryMiners.run\<close> does nothing in two edge cases. With no event to predict it
  returns without any call: no metagraph sync, no query, no write. With events to predict
  but no serving axon in the synced metagraph, it makes no call to the dendrite and no
  call to the store: the only call it can have made is the sync of the metagraph, and
  that is what it makes, returning normally, when the synapse is built and every uid
  indexes the axon list.
\<close>

theorem run_noop_edge_cases:
  "(events_to_predict env = [] \<longrightarrow> run env = ([], Inr ()))
   \<and> (events_to_predict env \<noteq> []
        \<and> (\<forall>uid \<in> set (mg_uids (synced_metagraph env)).
              \<forall>a. axon_at (synced_metagraph env) uid = Inr (Some a) \<longrightarrow> \<not> is_serving a)
       \<longrightarrow> (fst (run env) = [] \<or> fst (run env) = [MetagraphSync])
           \<and> (\<forall>x \<in> set (fst (run env)).
                 (\<forall>axons syn. x \<noteq> DendriteForward axons syn)
                 \<and> (\<forall>batch. x \<noteq> UpsertPredictions batch))
           \<and> (\<forall>syn. make_predictions_synapse (env_parsers env) (events_to_predict env) = Inr syn
                 \<and> (\<forall>uid \<in> set (mg_uids (synced_metagraph env)).
                       uid < length (mg_axons (synced_metagraph env)))
                \<longrightarrow> run env = ([MetagraphSync], Inr ())))"
proof (intro conjI impI)
  assume "events_to_predict env = []"
  then show "run env = ([], Inr ())" by (simp add: run_def)
next
  assume h: "events_to_predict env \<noteq> []
        \<and> (\<forall>uid \<in> set (mg_uids (synced_metagraph env)).
              \<forall>a. axon_at (synced_metagraph env) uid = Inr (Some a) \<longrightarrow> \<not> is_serving a)"
  let ?mg = "synced_metagraph env"
  have g: "get_axons ?mg = Inr [] \<or> (\<exists>e. get_axons ?mg = Inl e)"
    unfolding get_axons_def using h get_axons_loop_none_serving by blast
  have r: "fst (run env) = [] \<or> fst (run env) = [MetagraphSync]"
    using h g by (auto simp add: run_def Let_def split: sum.splits)
  then show "fst (run env) = [] \<or> fst (run env) = [MetagraphSync]" .
  from r show "\<forall>x \<in> set (fst (run env)).
                 (\<forall>axons syn. x \<noteq> DendriteForward axons syn)
                 \<and> (\<forall>batch. x \<noteq> UpsertPredictions batch)" by auto
  show "\<forall>syn. make_predictions_synapse (env_parsers env) (events_to_predict env) = Inr syn
                 \<and> (\<forall>uid \<in> set (mg_uids (synced_metagraph env)).
                       uid < length (mg_axons (synced_metagraph env)))
                \<longrightarrow> run env = ([MetagraphSync], Inr ())"
  proof (intro allI impI)
    fix syn
    assume a: "make_predictions_synapse (env_parsers env) (events_to_predict env) = Inr syn
                 \<and> (\<forall>uid \<in> set (mg_uids ?mg). uid < length (mg_axons ?mg))"
    have "\<And>acc. get_axons_loop ?mg us acc = Inr acc"
      if "set us \<subseteq> set (mg_uids ?mg)" for us
      using that
    proof (induction us)
      case Nil
      then show ?case by simp
    next
      case (Cons uid rest)
      have u: "uid \<in> set (mg_uids ?mg)" using Cons.prems by simp
      then have "axon_at ?mg uid = Inr (mg_axons ?mg ! uid)"
        using a by (simp add: axon_at_def)
      moreover have "\<forall>a. axon_at ?mg uid = Inr (Some a) \<longrightarrow> \<not> is_serving a"
        using h u by blast
      moreover have "\<And>acc. get_axons_loop ?mg rest acc = Inr acc"
        using Cons by simp
      ultimately show ?case by (auto split: option.splits)
    qed
    then have "get_axons ?mg = Inr []" by (simp add: get_axons_def)
    then show "run env = ([MetagraphSync], Inr ())"
      using h a by (simp add: run_def Let_def)
  qed
qed

theorem run_noop_edge_cases_witness:
  "events_to_predict
      \<lparr>events_to_predict = [],
       env_parsers = \<lparr>iso_timestamp = (\<lambda>x. Some 0), json_loads = (\<lambda>x. Some [])\<rparr>,
       synced_metagraph = \<lparr>mg_uids = [0], mg_axons = [Some \<lparr>hotkey = ''hk0'', is_serving = True\<rparr>],
                            mg_block = 7\<rparr>,
       dendrite_forward = (\<lambda>axons syn. map (\<lambda>a. syn) axons),
       time_now = 0\<rparr> = []
   \<and> run
      \<lparr>events_to_predict = [],
       env_parsers = \<lparr>iso_timestamp = (\<lambda>x. Some 0), json_loads = (\<lambda>x. Some [])\<rparr>,
       synced_metagraph = \<lparr>mg_uids = [0], mg_axons = [Some \<lparr>hotkey = ''hk0'', is_serving = True\<rparr>],
                            mg_block = 7\<rparr>,
       dendrite_forward = (\<lambda>axons syn. map (\<lambda>a. syn) axons),
       time_now = 0\<rparr> = ([], Inr ())
   \<and> axon_at \<lparr>mg_uids = [0, 1],
               mg_axons = [Some \<lparr>hotkey = ''hk0'', is_serving = False\<rparr>, None],
               mg_block = 7\<rparr> 0 = Inr (Some \<lparr>hotkey = ''hk0'', is_serving = False\<rparr>)
   \<and> axon_at \<lparr>mg_uids = [0, 1],
               mg_axons = [Some \<lparr>hotkey = ''hk0'', is_serving = False\<rparr>, None],
               mg_block = 7\<rparr> 1 = Inr None
   \<and> run
      \<lparr>events_to_predict =
         [\<lparr>row_event_id = ''e1'', row_market_type = ''IFGames'', row_description = ''d'',
           row_cutoff = Some ''2024-01-02'', row_resolve_date = None, row_end_date = None,
           row_metadata = ''{}''\<rparr>],
       env_parsers = \<lparr>iso_timestamp = (\<lambda>x. Some 0), json_loads = (\<lambda>x. Some [])\<rparr>,
       synced_metagraph = \<lparr>mg_uids = [0, 1],
                            mg_axons = [Some \<lparr>hotkey = ''hk0'', is_serving = False\<rparr>, None],
                            mg_block = 7\<rparr>,
       dendrite_forward = (\<lambda>axons syn. map (\<lambda>a. syn) axons),
       time_now = 0\<rparr> = ([MetagraphSync], Inr ())"
  using run_noop_edge_cases
    [of "\<lparr>events_to_predict = [],
       env_parsers = \<lparr>iso_timestamp = (\<lambda>x. Some 0), json_loads = (\<lambda>x. Some [])\<rparr>,
       synced_metagraph = \<lparr>mg_uids = [0], mg_axons = [Some \<lparr>hotkey = ''hk0'', is_serving = True\<rparr>],
                            mg_block = 7\<rparr>,
       dendrite_forward = (\<lambda>axons syn. map (\<lambda>a. syn) axons),
       time_now = 0\<rparr>"]
    run_noop_edge_cases
    [of "\<lparr>events_to_predict =
         [\<lparr>row_event_id = ''e1'', row_market_type = ''IFGames'', row_description = ''d'',
           row_cutoff = Some ''2024-01-02'', row_resolve_date = None, row_end_date = None,
           row_metadata = ''{}''\<rparr>],
       env_parsers = \<lparr>iso_timestamp = (\<lambda>x. Some 0), json_loads = (\<lambda>x. Some [])\<rparr>,
       synced_metagraph = \<lparr>mg_uids = [0, 1],
                            mg_axons = [Some \<lparr>hotkey = ''hk0'', is_serving = False\<rparr>, None],
                            mg_block = 7\<rparr>,
       dendrite_forward = (\<lambda>axons syn. map (\<lambda>a. syn) axons),
       time_now = 0\<rparr>"]
  by (simp add: run_def make_predictions_synapse_def compile_event_def parse_date_def
      get_axons_def axon_at_def Let_def)

section \<open>The rate limit\<close>

text \<open>
  C8, as the code has it. A round issues its network call as soon as it is entered,
  whatever the time since the previous round. At its end, outside a test run, when fewer
  than 300 seconds have passed since the previous round completed, it sleeps the
  remainder before it returns control to its caller, so the completion stamps
  \<^verbatim>\<open>last_query_time\<close> of successive rounds are at least 300 seconds apart. Under
  \<^verbatim>\<open>PYTEST_CURRENT_TEST\<close> it never sleeps.
\<close>

theorem forward_sleeps_after_query_before_return:
  "snd (forward pytest_current_test tm s) =
     QueryMinersAt (entered_at tm + until_query tm)
       # (if entered_at tm + until_query tm + until_check tm - last_query_time s < 300
             \<and> \<not> pytest_current_test
          then [SleepAt (entered_at tm + until_query tm + until_check tm)
                  (300 - (entered_at tm + until_query tm + until_check tm - last_query_time s))]
          else [])
   \<and> (\<not> pytest_current_test \<and> 0 \<le> until_finally tm \<longrightarrow>
        last_query_time s + 300 \<le> last_query_time (fst (forward pytest_current_test tm s)))
   \<and> (0 \<le> until_check tm \<longrightarrow>
        (\<forall>t w. SleepAt t w \<in> set (snd (forward pytest_current_test tm s)) \<longrightarrow>
           entered_at tm + until_query tm \<le> t \<and> 0 < w
           \<and> t + w + until_finally tm = last_query_time (fst (forward pytest_current_test tm s))))
   \<and> (pytest_current_test \<longrightarrow>
        snd (forward pytest_current_test tm s) = [QueryMinersAt (entered_at tm + until_query tm)])
   \<and> blocktime (fst (forward pytest_current_test tm s)) = blocktime s + 1"
  by (auto simp add: forward_def Let_def MIN_TIME_BETWEEN_QUERY_MINERS_def)

theorem forward_sleeps_after_query_before_return_witness:
  "\<not> False \<and> (0::real) \<le> 0 \<and> (0::real) \<le> 2
   \<and> forward False \<lparr>entered_at = 1010, until_query = 1, until_check = 2, until_finally = 0\<rparr>
        \<lparr>last_query_time = 1000, blocktime = 0\<rparr>
      = (\<lparr>last_query_time = 1300, blocktime = 1\<rparr>, [QueryMinersAt 1011, SleepAt 1013 287])
   \<and> last_query_time \<lparr>last_query_time = 1000, blocktime = 0\<rparr> + 300
       \<le> last_query_time (fst (forward False
             \<lparr>entered_at = 1010, until_query = 1, until_check = 2, until_finally = 0\<rparr>
             \<lparr>last_query_time = 1000, blocktime = 0\<rparr>))
   \<and> forward True \<lparr>entered_at = 1010, until_query = 1, until_check = 2, until_finally = 0\<rparr>
        \<lparr>last_query_time = 1000, blocktime = 0\<rparr>
      = (\<lparr>last_query_time = 1013, blocktime = 1\<rparr>, [QueryMinersAt 1011])"
  using forward_sleeps_after_query_before_return
      [of False "\<lparr>entered_at = 1010, until_query = 1, until_check = 2, until_finally = 0\<rparr>"
        "\<lparr>last_query_time = 1000, blocktime = 0\<rparr>"]
    forward_sleeps_after_query_before_return
      [of True "\<lparr>entered_at = 1010, until_query = 1, until_check = 2, until_finally = 0\<rparr>"
        "\<lparr>last_query_time = 1000, blocktime = 0\<rparr>"]
  by (simp add: forward_def Let_def MIN_TIME_BETWEEN_QUERY_MINERS_def)

text \<open>
  The claim C8 as stated fails: a round entered 10 seconds after the previous one
  completed issues its query at 1011, before the 300 seconds have passed, and sleeps only
  afterwards; the queries of two successive rounds can be 2 seconds apart; and in a test
  run there is no wait at all.
\<close>

theorem forward_sleeps_after_query_before_return_counterexample:
  "forward False \<lparr>entered_at = 1010, until_query = 1, until_check = 2, until_finally = 0\<rparr>
        \<lparr>last_query_time = 1000, blocktime = 0\<rparr>
      = (\<lparr>last_query_time = 1300, blocktime = 1\<rparr>, [QueryMinersAt 1011, SleepAt 1013 287])
   \<and> (1011::real) < 1000 + MIN_TIME_BETWEEN_QUERY_MINERS
   \<and> forward False \<lparr>entered_at = 1300, until_query = 299, until_check = 1, until_finally = 0\<rparr>
        \<lparr>last_query_time = 1300, blocktime = 1\<rparr>
      = (\<lparr>last_query_time = 1600, blocktime = 2\<rparr>, [QueryMinersAt 1599])
   \<and> forward False \<lparr>entered_at = 1600, until_query = 1, until_check = 2, until_finally = 0\<rparr>
        \<lparr>last_query_time = 1600, blocktime = 2\<rparr>
      = (\<lparr>last_query_time = 1900, blocktime = 3\<rparr>, [QueryMinersAt 1601, SleepAt 1603 297])
   \<and> (1601::real) - 1599 < MIN_TIME_BETWEEN_QUERY_MINERS
   \<and> forward True \<lparr>entered_at = 1010, until_query = 1, until_check = 2, until_finally = 0\<rparr>
        \<lparr>last_query_time = 1000, blocktime = 0\<rparr>
      = (\<lparr>last_query_time = 1013, blocktime = 1\<rparr>, [QueryMinersAt 1011])"
  by (simp add: forward_def Let_def MIN_TIME_BETWEEN_QUERY_MINERS_def)

section \<open>The records of a dispatch round\<close>

lemma length_update_le: "length (AList.update k v al) \<le> Suc (length al)"
  by (induction al) simp_all

lemma compile_events_length:
  "compile_events ps events acc = Inr syn \<Longrightarrow> length syn \<le> length acc + length events"
proof (induction events arbitrary: acc)
  case Nil
  then show ?case by simp
next
  case (Cons event rest)
  then obtain k v where kv: "compile_event ps event = Inr (k, v)"
    and r: "compile_events ps rest (AList.update k v acc) = Inr syn"
    by (auto split: sum.splits)
  from Cons.IH [OF r] have "length syn \<le> length (AList.update k v acc) + length rest" .
  then show ?case using length_update_le [of k v acc] by simp
qed

lemma make_predictions_synapse_length:
  "make_predictions_synapse ps events = Inr syn \<Longrightarrow> length syn \<le> length events"
  using compile_events_length [of ps events "[]" syn] by (simp add: make_predictions_synapse_def)

lemma reply_within_request:
  assumes "distinct (map fst reply)" "set (map fst reply) \<subseteq> set (map fst request)"
  shows "length reply \<le> length request"
proof -
  have "card (set (map fst reply)) = length (map fst reply)"
    using assms(1) by (rule distinct_card)
  then have "length reply = card (set (map fst reply))" by simp
  also have "\<dots> \<le> card (set (map fst request))"
    using assms(2) by (intro card_mono) simp_all
  also have "\<dots> \<le> length request"
    using card_length [of "map fst request"] by simp
  finally show ?thesis .
qed

lemma store_predictions_batches:
  assumes "\<forall>(uid, reply) \<in> set replies. \<exists>a. axon_at mg uid = Inr (Some a)"
  shows "\<exists>batches. store_predictions mg block ism replies = (batches, Inr ())
     \<and> length batches = length replies
     \<and> (\<forall>k < length replies. \<exists>a. axon_at mg (fst (replies ! k)) = Inr (Some a)
           \<and> batches ! k =
               map (prediction_of (hotkey a) block ism (fst (replies ! k))) (snd (replies ! k)))"
  using assms
proof (induction replies)
  case Nil
  then show ?case by simp
next
  case (Cons p rest)
  obtain uid reply where p: "p = (uid, reply)" by (cases p)
  from Cons.prems p obtain a where a: "axon_at mg uid = Inr (Some a)" by auto
  have "\<forall>(uid, reply) \<in> set rest. \<exists>a. axon_at mg uid = Inr (Some a)"
    using Cons.prems by simp
  from Cons.IH [OF this] obtain batches where
    b: "store_predictions mg block ism rest = (batches, Inr ())"
       "length batches = length rest"
       "\<forall>k < length rest. \<exists>a. axon_at mg (fst (rest ! k)) = Inr (Some a)
           \<and> batches ! k = map (prediction_of (hotkey a) block ism (fst (rest ! k))) (snd (rest ! k))"
    by blast
  let ?batch = "map (prediction_of (hotkey a) block ism uid) reply"
  have s: "store_predictions mg block ism (p # rest) = (?batch # batches, Inr ())"
    using p a b(1) by (simp add: parse_neuron_predictions_def)
  have n: "\<exists>a. axon_at mg (fst ((p # rest) ! k)) = Inr (Some a)
           \<and> (?batch # batches) ! k =
               map (prediction_of (hotkey a) block ism (fst ((p # rest) ! k))) (snd ((p # rest) ! k))"
    if "k < length (p # rest)" for k
  proof (cases k)
    case 0
    then show ?thesis using p a by simp
  next
    case (Suc j)
    then show ?thesis using that b(3) by simp
  qed
  show ?case using s b(2) n by simp
qed

lemma sum_list_length_bound:
  "\<forall>x \<in> set xs. x \<le> (m::nat) \<Longrightarrow> sum_list xs \<le> length xs * m"
  by (induction xs) auto

lemma prediction_of_key: "fst (prediction_of h block ism uid e) = fst e"
  by (simp add: prediction_of_def Let_def)

lemma prediction_of_fun:
  "prediction_of h block ism uid =
     (\<lambda>e. (fst e, h, uid, se_probability (snd e), ism, se_probability (snd e), block,
           se_probability (snd e)))"
  by (rule ext) (simp add: prediction_of_def Let_def)

lemma count_key_map_prediction_of:
  "length (filter (\<lambda>r. fst r = eid) (map (prediction_of h block ism uid) reply)) =
     length (filter (\<lambda>e. fst e = eid) reply)"
  by (induction reply) (simp_all add: prediction_of_key)

text \<open>
  C7, as the code has it. When every replying peer has an axon, the round hands the store
  one batch per reply, and a batch holds exactly one record per entry of the reply, in
  order, carrying the entry's probability as its answer (an absent answer when the entry
  leaves the probability unset); so for every event key a peer's batch holds as many
  records as the reply has entries under that key, none when the reply has no entry for
  it. The number of records of the round is the sum of the sizes of the replies; it is at
  most \<open>N * M\<close>, for \<open>N\<close> replies and \<open>M\<close> open events, when every reply has distinct keys that
  are keys of the request.
\<close>

theorem dispatch_round_records_mirror_replies:
  assumes "\<forall>(uid, reply) \<in> set replies. \<exists>a. axon_at mg uid = Inr (Some a)"
  shows "\<exists>batches. store_predictions mg block ism replies = (batches, Inr ())
     \<and> length batches = length replies
     \<and> (\<forall>k < length replies. \<exists>a. axon_at mg (fst (replies ! k)) = Inr (Some a)
           \<and> batches ! k =
               map (\<lambda>e. (fst e, hotkey a, fst (replies ! k), se_probability (snd e), ism,
                          se_probability (snd e), block, se_probability (snd e)))
                 (snd (replies ! k)))
     \<and> (\<forall>k < length replies. \<forall>eid.
           length (filter (\<lambda>r. fst r = eid) (batches ! k)) =
             length (filter (\<lambda>e. fst e = eid) (snd (replies ! k))))
     \<and> length (concat batches) = sum_list (map (\<lambda>p. length (snd p)) replies)
     \<and> (make_predictions_synapse ps events = Inr request
          \<and> (\<forall>(uid, reply) \<in> set replies.
                distinct (map fst reply) \<and> set (map fst reply) \<subseteq> set (map fst request))
        \<longrightarrow> length (concat batches) \<le> length replies * length events)"
proof -
  from store_predictions_batches [OF assms, of block ism] obtain batches where
    b: "store_predictions mg block ism replies = (batches, Inr ())"
       "length batches = length replies"
       "\<forall>k < length replies. \<exists>a. axon_at mg (fst (replies ! k)) = Inr (Some a)
           \<and> batches ! k =
               map (prediction_of (hotkey a) block ism (fst (replies ! k))) (snd (replies ! k))"
    by blast
  have c: "\<forall>k < length replies. \<exists>a. axon_at mg (fst (replies ! k)) = Inr (Some a)
           \<and> batches ! k =
               map (\<lambda>e. (fst e, hotkey a, fst (replies ! k), se_probability (snd e), ism,
                          se_probability (snd e), block, se_probability (snd e)))
                 (snd (replies ! k))"
    using b(3) unfolding prediction_of_fun .
  have d: "\<forall>k < length replies. \<forall>eid.
           length (filter (\<lambda>r. fst r = eid) (batches ! k)) =
             length (filter (\<lambda>e. fst e = eid) (snd (replies ! k)))"
  proof (intro allI impI)
    fix k eid
    assume "k < length replies"
    then obtain a :: axon_info where "batches ! k =
        map (prediction_of (hotkey a) block ism (fst (replies ! k))) (snd (replies ! k))"
      using b(3) by blast
    then show "length (filter (\<lambda>r. fst r = eid) (batches ! k)) =
             length (filter (\<lambda>e. fst e = eid) (snd (replies ! k)))"
      by (simp only: count_key_map_prediction_of)
  qed
  have "map length batches = map (\<lambda>p. length (snd p)) replies"
  proof (rule nth_equalityI)
    show "length (map length batches) = length (map (\<lambda>p. length (snd p)) replies)"
      using b(2) by simp
  next
    fix k assume "k < length (map length batches)"
    then have k: "k < length replies" using b(2) by simp
    then obtain a :: axon_info where "batches ! k =
        map (prediction_of (hotkey a) block ism (fst (replies ! k))) (snd (replies ! k))"
      using b(3) by blast
    then show "map length batches ! k = map (\<lambda>p. length (snd p)) replies ! k"
      using k b(2) by simp
  qed
  then have e: "length (concat batches) = sum_list (map (\<lambda>p. length (snd p)) replies)"
    by (simp add: length_concat)
  have f: "length (concat batches) \<le> length replies * length events"
    if h: "make_predictions_synapse ps events = Inr request
          \<and> (\<forall>(uid, reply) \<in> set replies.
                distinct (map fst reply) \<and> set (map fst reply) \<subseteq> set (map fst request))"
  proof -
    have m: "length request \<le> length events"
      using h make_predictions_synapse_length by blast
    have "\<forall>x \<in> set (map (\<lambda>p. length (snd p)) replies). x \<le> length events"
    proof
      fix x assume "x \<in> set (map (\<lambda>p. length (snd p)) replies)"
      then obtain uid reply where p: "(uid, reply) \<in> set replies" "x = length reply" by auto
      have hh: "\<forall>(uid, reply) \<in> set replies.
                distinct (map fst reply) \<and> set (map fst reply) \<subseteq> set (map fst request)"
        using h by (rule conjunct2)
      have "distinct (map fst reply) \<and> set (map fst reply) \<subseteq> set (map fst request)"
        using bspec [OF hh p(1)] by (simp only: prod.case)
      then have "length reply \<le> length request"
        using reply_within_request [of reply request] by blast
      then show "x \<le> length events" using m p(2) by simp
    qed
    then have "sum_list (map (\<lambda>p. length (snd p)) replies)
        \<le> length (map (\<lambda>p. length (snd p)) replies) * length events"
      by (rule sum_list_length_bound)
    then show ?thesis using e by simp
  qed
  have g: "make_predictions_synapse ps events = Inr request
          \<and> (\<forall>(uid, reply) \<in> set replies.
                distinct (map fst reply) \<and> set (map fst reply) \<subseteq> set (map fst request))
        \<longrightarrow> length (concat batches) \<le> length replies * length events"
    using f by (rule impI)
  show ?thesis
  proof (rule exI [of _ batches], intro conjI)
    show "store_predictions mg block ism replies = (batches, Inr ())" by (rule b(1))
    show "length batches = length replies" by (rule b(2))
    show "\<forall>k < length replies. \<exists>a. axon_at mg (fst (replies ! k)) = Inr (Some a)
           \<and> batches ! k =
               map (\<lambda>e. (fst e, hotkey a, fst (replies ! k), se_probability (snd e), ism,
                          se_probability (snd e), block, se_probability (snd e)))
                 (snd (replies ! k))" by (rule c)
    show "\<forall>k < length replies. \<forall>eid.
           length (filter (\<lambda>r. fst r = eid) (batches ! k)) =
             length (filter (\<lambda>e. fst e = eid) (snd (replies ! k)))" by (rule d)
    show "length (concat batches) = sum_list (map (\<lambda>p. length (snd p)) replies)" by (rule e)
    show "make_predictions_synapse ps events = Inr request
          \<and> (\<forall>(uid, reply) \<in> set replies.
                distinct (map fst reply) \<and> set (map fst reply) \<subseteq> set (map fst request))
        \<longrightarrow> length (concat batches) \<le> length replies * length events" by (rule g)
  qed
qed

theorem dispatch_round_records_mirror_replies_witness:
  "axon_at \<lparr>mg_uids = [0], mg_axons = [Some \<lparr>hotkey = ''hk0'', is_serving = True\<rparr>],
             mg_block = 7\<rparr> 0 = Inr (Some \<lparr>hotkey = ''hk0'', is_serving = True\<rparr>)
   \<and> make_predictions_synapse
        \<lparr>iso_timestamp = (\<lambda>x. Some 0), json_loads = (\<lambda>x. Some [])\<rparr>
        [\<lparr>row_event_id = ''e1'', row_market_type = ''ifgames'', row_description = ''d'',
          row_cutoff = None, row_resolve_date = None, row_end_date = None,
          row_metadata = ''{}''\<rparr>]
      = Inr [(''ifgames-e1'',
              \<lparr>se_event_id = ''e1'', se_market_type = ''ifgames'', se_probability = None,
               se_miner_answered = False, se_description = ''d'', se_cutoff = None,
               se_starts = None, se_resolve_date = None, se_end_date = None\<rparr>)]
   \<and> distinct (map fst [(''ifgames-e1'', reply_entry ''e1'' None)])
   \<and> store_predictions
        \<lparr>mg_uids = [0], mg_axons = [Some \<lparr>hotkey = ''hk0'', is_serving = True\<rparr>],
         mg_block = 7\<rparr> 7 0
        [(0, [(''ifgames-e1'', reply_entry ''e1'' None)])]
      = ([[(''ifgames-e1'', ''hk0'', 0, None, 0, None, 7, None)]], Inr ())
   \<and> length (concat [[(''ifgames-e1'', ''hk0'', 0 :: nat, None :: real option, 0 :: int,
                         None :: real option, 7 :: int, None :: real option)]])
       \<le> length [(0 :: nat, [(''ifgames-e1'', reply_entry ''e1'' None)])]
           * length [\<lparr>row_event_id = ''e1'', row_market_type = ''ifgames'',
                      row_description = ''d'', row_cutoff = None, row_resolve_date = None,
                      row_end_date = None, row_metadata = ''{}''\<rparr>]"
  using dispatch_round_records_mirror_replies
    [of "[(0, [(''ifgames-e1'', reply_entry ''e1'' None)])]"
        "\<lparr>mg_uids = [0], mg_axons = [Some \<lparr>hotkey = ''hk0'', is_serving = True\<rparr>],
          mg_block = 7\<rparr>"
        7 0
        "\<lparr>iso_timestamp = (\<lambda>x. Some 0), json_loads = (\<lambda>x. Some [])\<rparr>"
        "[\<lparr>row_event_id = ''e1'', row_market_type = ''ifgames'', row_description = ''d'',
          row_cutoff = None, row_resolve_date = None, row_end_date = None,
          row_metadata = ''{}''\<rparr>]"
        "[(''ifgames-e1'',
              \<lparr>se_event_id = ''e1'', se_market_type = ''ifgames'', se_probability = None,
               se_miner_answered = False, se_description = ''d'', se_cutoff = None,
               se_starts = None, se_resolve_date = None, se_end_date = None\<rparr>)]"]
  by (simp add: axon_at_def make_predictions_synapse_def compile_event_def parse_date_def
      str_lower_def lower_char_def Let_def parse_neuron_predictions_def prediction_of_def
      reply_entry_def)

text \<open>
  The claim C7 as stated fails: with one replying peer and one open event, a reply with
  two entries yields two records, more than \<open>1 * 1\<close>; and a reply with no entry yields no
  record at all for the open event, where the claim asks for one record with an absent
  answer.
\<close>

theorem dispatch_round_records_mirror_replies_counterexample:
  "store_predictions
        \<lparr>mg_uids = [0], mg_axons = [Some \<lparr>hotkey = ''hk0'', is_serving = True\<rparr>],
         mg_block = 7\<rparr> 7 0
        [(0, [(''ifgames-e1'', reply_entry ''e1'' (Some (7 / 10))),
              (''ifgames-zz'', reply_entry ''zz'' None)])]
      = ([[(''ifgames-e1'', ''hk0'', 0, Some (7 / 10), 0, Some (7 / 10), 7, Some (7 / 10)),
           (''ifgames-zz'', ''hk0'', 0, None, 0, None, 7, None)]], Inr ())
   \<and> length [(0 :: nat, [(''ifgames-e1'', reply_entry ''e1'' (Some (7 / 10))),
                         (''ifgames-zz'', reply_entry ''zz'' None)])]
       * length [\<lparr>row_event_id = ''e1'', row_market_type = ''ifgames'',
                  row_description = ''d'', row_cutoff = None, row_resolve_date = None,
                  row_end_date = None, row_metadata = ''{}''\<rparr>]
       < length (concat (fst (store_predictions
            \<lparr>mg_uids = [0], mg_axons = [Some \<lparr>hotkey = ''hk0'', is_serving = True\<rparr>],
             mg_block = 7\<rparr> 7 0
            [(0, [(''ifgames-e1'', reply_entry ''e1'' (Some (7 / 10))),
                  (''ifgames-zz'', reply_entry ''zz'' None)])])))
   \<and> store_predictions
        \<lparr>mg_uids = [0], mg_axons = [Some \<lparr>hotkey = ''hk0'', is_serving = True\<rparr>],
         mg_block = 7\<rparr> 7 0 [(0, [])]
      = ([[]], Inr ())
   \<and> concat (fst (store_predictions
        \<lparr>mg_uids = [0], mg_axons = [Some \<lparr>hotkey = ''hk0'', is_serving = True\<rparr>],
         mg_block = 7\<rparr> 7 0 [(0, [])])) = []"
  by (simp add: axon_at_def parse_neuron_predictions_def prediction_of_def reply_entry_def
      Let_def)

text \<open>In \<^verbatim>\<open>run\<close> every reply belongs to an axon that \<^verbatim>\<open>get_axons\<close> selected, so the
  hypothesis of the theorem above holds there.\<close>

lemma set_update_subset: "set (AList.update k v al) \<subseteq> insert (k, v) (set al)"
  by (induction al) auto

lemma get_axons_loop_entries:
  assumes "get_axons_loop mg us acc = Inr axons"
    and "\<forall>(uid, a) \<in> set acc. axon_at mg uid = Inr (Some a)"
  shows "\<forall>(uid, a) \<in> set axons. axon_at mg uid = Inr (Some a)"
  using assms
proof (induction us arbitrary: acc)
  case Nil
  then show ?case by simp
next
  case (Cons uid rest)
  show ?case
  proof (cases "axon_at mg uid")
    case (Inl e)
    then show ?thesis using Cons.prems by simp
  next
    case (Inr ax)
    show ?thesis
    proof (cases ax)
      case None
      then show ?thesis using Cons Inr by simp
    next
      case (Some a)
      show ?thesis
      proof (cases "is_serving a")
        case True
        have "\<forall>(u, b) \<in> set (AList.update uid a acc). axon_at mg u = Inr (Some b)"
          using set_update_subset [of uid a acc] Cons.prems(2) Inr Some by auto
        moreover have "get_axons_loop mg rest (AList.update uid a acc) = Inr axons"
          using Cons.prems(1) Inr Some True by simp
        ultimately show ?thesis using Cons.IH by blast
      next
        case False
        then show ?thesis using Cons Inr Some by simp
      qed
    qed
  qed
qed

lemma fold_update_keys:
  "fst ` set (fold (\<lambda>(k, v) d. AList.update k v d) items acc) = fst ` set items \<union> fst ` set acc"
proof (induction items arbitrary: acc)
  case Nil
  then show ?case by simp
next
  case (Cons p rest)
  obtain k v where p: "p = (k, v)" by (cases p)
  show ?case using Cons.IH [of "AList.update k v acc"] p
    by (simp add: AList.dom_update)
qed

lemma query_neurons_keys:
  "fst ` set (query_neurons env axons syn) \<subseteq> fst ` set axons"
proof -
  have "fst ` set (zip (map fst axons) (dendrite_forward env (map snd axons) syn))
      \<subseteq> set (map fst axons)"
    by (auto dest: set_zip_leftD)
  then show ?thesis
    by (simp add: query_neurons_def dict_of_items_def fold_update_keys Let_def)
qed

lemma run_replies_have_axons:
  assumes "get_axons mg = Inr axons"
  shows "\<forall>(uid, reply) \<in> set (query_neurons env axons syn). \<exists>a. axon_at mg uid = Inr (Some a)"
proof -
  have e: "\<forall>(uid, a) \<in> set axons. axon_at mg uid = Inr (Some a)"
    using get_axons_loop_entries [of mg "mg_uids mg" "[]" axons] assms
    by (simp add: get_axons_def)
  show ?thesis
  proof (clarify)
    fix uid reply assume "(uid, reply) \<in> set (query_neurons env axons syn)"
    then have "uid \<in> fst ` set (query_neurons env axons syn)" by force
    then have "uid \<in> fst ` set axons" using query_neurons_keys by blast
    then obtain a where "(uid, a) \<in> set axons" by auto
    then show "\<exists>a. axon_at mg uid = Inr (Some a)" using e by blast
  qed
qed

end
